theory Spec2Isabelle
  imports Main "HOL-Library.Char_ord" "HOL-Library.List_Lexorder" "HOL-Library.Sublist"
begin

section \<open>Python values used by googler.py\<close>

text \<open>
  Python \<open>str\<close> is modelled as \<open>string\<close> (the UTF-8 bytes of the text), Python's
  unbounded \<open>int\<close> as \<open>int\<close>.  Every exception class the modelled code can raise is a
  constructor of \<open>error\<close>; \<open>GoogleConnectionError\<close> carries its message, because
  the message is the only thing that tells two of them apart.
\<close>

datatype error =
    KeyError
  | AttributeError
  | TypeError
  | ValueError string
  | HTTPException
  | OSError
  | GoogleConnectionError string

text \<open>\<open>str(n)\<close> for an integer: decimal digits, with a leading minus sign.\<close>

definition digit_char :: "nat \<Rightarrow> char" where
  "digit_char d = ''0123456789'' ! d"

fun str_nat :: "nat \<Rightarrow> string" where
  "str_nat n = (if n < 10 then [digit_char n] else str_nat (n div 10) @ [digit_char (n mod 10)])"

declare str_nat.simps [simp del]

definition str_int :: "int \<Rightarrow> string" where
  "str_int i = (if i < 0 then CHR ''-'' # str_nat (nat (- i)) else str_nat (nat i))"

section \<open>GoogleUrl: query and pagination state\<close>

text \<open>\<open>keywords\<close> is ``either a str or a list of strs''.\<close>

datatype keywords_val = KwStr string | KwList "string list"

text \<open>Values stored in \<open>_query_dict\<close>: strings (\<open>'UTF-8'\<close>, \<open>'nws'\<close>) and ints (\<open>nfpr=1\<close>, \<open>filter=0\<close>).\<close>

datatype pyval = PyStr string | PyInt int

text \<open>
  A dict with string keys is an association list with Python's dict semantics:
  assigning to an existing key replaces the value in place, a new key is appended,
  \<open>pop(k, None)\<close> removes the key if it is there.
\<close>

type_synonym qdict = "(string \<times> pyval) list"

fun dict_set :: "'k \<Rightarrow> 'v \<Rightarrow> ('k \<times> 'v) list \<Rightarrow> ('k \<times> 'v) list" where
  "dict_set k v [] = [(k, v)]"
| "dict_set k v ((k', v') # d) = (if k = k' then (k, v) # d else (k', v') # dict_set k v d)"

fun dict_pop :: "'k \<Rightarrow> ('k \<times> 'v) list \<Rightarrow> ('k \<times> 'v) list" where
  "dict_pop k [] = []"
| "dict_pop k ((k', v') # d) = (if k = k' then d else (k', v') # dict_pop k d)"

text \<open>
  The fields of \<open>GoogleUrl\<close> carry the prefix \<open>u_\<close> (\<open>u_start\<close> is \<open>self._start\<close>);
  \<open>scheme\<close> is the constant \<open>'https'\<close> and is not needed for the relative URL.
\<close>

record GoogleUrl =
  u_path :: string
  u_params :: string
  u_fragment :: string
  u_tld :: "string option"
  u_num :: int
  u_start :: int
  u_keywords :: keywords_val
  u_site :: "string option"
  u_query_dict :: qdict

text \<open>\<open>next_page\<close>: \<open>self._start += self._num\<close>.\<close>

definition next_page :: "GoogleUrl \<Rightarrow> GoogleUrl" where
  "next_page u = u\<lparr>u_start := u_start u + u_num u\<rparr>"

text \<open>
  \<open>prev_page\<close>: raises \<open>ValueError\<close> at \<open>start == 0\<close>, else
  \<open>start = start - num if start > num else 0\<close>.
\<close>

definition prev_page :: "GoogleUrl \<Rightarrow> error + GoogleUrl" where
  "prev_page u =
     (if u_start u = 0 then Inl (ValueError ''Already at the first page.'')
      else Inr (u\<lparr>u_start := (if u_start u > u_num u then u_start u - u_num u else 0)\<rparr>))"

definition first_page :: "GoogleUrl \<Rightarrow> error + GoogleUrl" where
  "first_page u =
     (if u_start u = 0 then Inl (ValueError ''Already at the first page.'')
      else Inr (u\<lparr>u_start := 0\<rparr>))"

text \<open>
  \<open>update(opts)\<close>.  \<open>opts\<close> is a dict (or a namespace read as one): a field is
  \<open>None\<close> when the key is absent and \<open>Some v\<close> when \<open>opts[key] = v\<close>.  The values
  have the types the docstring lists; \<open>site\<close> and \<open>tld\<close> may be Python's \<open>None\<close>.
\<close>

record opts =
  o_duration :: "string option"
  o_exact :: "bool option"
  o_keywords :: "keywords_val option"
  o_lang :: "string option"
  o_news :: "bool option"
  o_num :: "int option"
  o_site :: "string option option"
  o_start :: "int option"
  o_tld :: "string option option"

definition no_opts :: opts where
  "no_opts = \<lparr>o_duration = None, o_exact = None, o_keywords = None, o_lang = None,
     o_news = None, o_num = None, o_site = None, o_start = None, o_tld = None\<rparr>"

definition update_qd :: "opts \<Rightarrow> qdict \<Rightarrow> qdict" where
  "update_qd os qd0 =
    (let qd1 = (case o_duration os of
                  Some d \<Rightarrow> if d \<noteq> [] then dict_set ''tbs'' (PyStr (''qdr:'' @ d)) qd0 else qd0
                | None \<Rightarrow> qd0);
         qd2 = (case o_exact os of
                  Some e \<Rightarrow> if e then dict_set ''nfpr'' (PyInt 1) qd1 else dict_pop ''nfpr'' qd1
                | None \<Rightarrow> qd1);
         qd3 = (case o_lang os of
                  Some l \<Rightarrow> if l \<noteq> [] then dict_set ''hl'' (PyStr l) qd2 else qd2
                | None \<Rightarrow> qd2);
         qd4 = (case o_news os of
                  Some n \<Rightarrow> if n then dict_set ''tbm'' (PyStr ''nws'') qd3 else dict_pop ''tbm'' qd3
                | None \<Rightarrow> qd3)
     in qd4)"

definition update :: "GoogleUrl \<Rightarrow> opts \<Rightarrow> GoogleUrl" where
  "update u os =
     u\<lparr>u_query_dict := update_qd os (u_query_dict u),
       u_keywords := (case o_keywords os of Some k \<Rightarrow> k | None \<Rightarrow> u_keywords u),
       u_num := (case o_num os of Some n \<Rightarrow> n | None \<Rightarrow> u_num u),
       u_site := (case o_site os of Some x \<Rightarrow> x | None \<Rightarrow> u_site u),
       u_start := (case o_start os of Some n \<Rightarrow> n | None \<Rightarrow> u_start u),
       u_tld := (case o_tld os of Some t \<Rightarrow> t | None \<Rightarrow> u_tld u)\<rparr>"

text \<open>\<open>__init__(opts)\<close>: the defaults, then \<open>self.update(opts)\<close>.\<close>

definition GoogleUrl_init :: "opts \<Rightarrow> GoogleUrl" where
  "GoogleUrl_init os =
     update \<lparr>u_path = ''/search'', u_params = '''', u_fragment = '''', u_tld = None,
              u_num = 10, u_start = 0, u_keywords = KwList [], u_site = None,
              u_query_dict = [(''ie'', PyStr ''UTF-8''), (''oe'', PyStr ''UTF-8'')]\<rparr> os"

text \<open>\<open>set_queries(**kwargs)\<close> and \<open>unset_queries(*args)\<close>.\<close>

fun set_queries_qd :: "(string \<times> pyval) list \<Rightarrow> qdict \<Rightarrow> qdict" where
  "set_queries_qd [] qd = qd"
| "set_queries_qd ((k, v) # kwargs) qd = set_queries_qd kwargs (dict_set k v qd)"

definition set_queries :: "GoogleUrl \<Rightarrow> (string \<times> pyval) list \<Rightarrow> GoogleUrl" where
  "set_queries u kwargs = u\<lparr>u_query_dict := set_queries_qd kwargs (u_query_dict u)\<rparr>"

fun unset_queries_qd :: "string list \<Rightarrow> qdict \<Rightarrow> qdict" where
  "unset_queries_qd [] qd = qd"
| "unset_queries_qd (k # args) qd = unset_queries_qd args (dict_pop k qd)"

definition unset_queries :: "GoogleUrl \<Rightarrow> string list \<Rightarrow> GoogleUrl" where
  "unset_queries u args = u\<lparr>u_query_dict := unset_queries_qd args (u_query_dict u)\<rparr>"

text \<open>The \<open>keywords\<close> property setter.\<close>

definition set_keywords :: "GoogleUrl \<Rightarrow> keywords_val \<Rightarrow> GoogleUrl" where
  "set_keywords u k = u\<lparr>u_keywords := k\<rparr>"

subsection \<open>Rendering the query string\<close>

text \<open>
  \<open>urllib.parse.quote_plus(s)\<close> of the standard library, on the UTF-8 bytes of \<open>s\<close>:
  letters, digits and \<open>_.-~\<close> stay, a space becomes \<open>+\<close>, every other byte becomes
  \<open>%XX\<close> in upper-case hexadecimal.
\<close>

definition always_safe :: "char \<Rightarrow> bool" where
  "always_safe c \<longleftrightarrow>
     c \<in> set ''ABCDEFGHIJKLMNOPQRSTUVWXYZabcdefghijklmnopqrstuvwxyz0123456789_.-~''"

definition hex_digit :: "nat \<Rightarrow> char" where
  "hex_digit d = ''0123456789ABCDEF'' ! d"

definition quote_char :: "char \<Rightarrow> string" where
  "quote_char c =
     (if always_safe c then [c]
      else if c = CHR '' '' then ''+''
      else [CHR ''%'', hex_digit (of_char c div 16), hex_digit (of_char c mod 16)])"

definition quote_plus :: "string \<Rightarrow> string" where
  "quote_plus s = concat (map quote_char s)"

text \<open>\<open>sep.join(xs)\<close>.\<close>

fun py_join :: "string \<Rightarrow> string list \<Rightarrow> string" where
  "py_join sep [] = []"
| "py_join sep [x] = x"
| "py_join sep (x # y # ys) = x @ sep @ py_join sep (y # ys)"

definition str_pyval :: "pyval \<Rightarrow> string" where
  "str_pyval v = (case v of PyStr s \<Rightarrow> s | PyInt i \<Rightarrow> str_int i)"

text \<open>
  The \<open>q\<close> value: the quoted keywords (joined by \<open>+\<close> when a list), then
  \<open>+site:\<close> and the quoted site when \<open>self._site\<close> is set and not empty.
\<close>

definition q_value :: "GoogleUrl \<Rightarrow> string" where
  "q_value u =
     (case u_keywords u of
        KwList kws \<Rightarrow> if kws \<noteq> [] then py_join ''+'' (map quote_plus kws) else ''''
      | KwStr kw \<Rightarrow> if kw \<noteq> [] then quote_plus kw else '''')
     @ (case u_site u of
          Some s \<Rightarrow> if s \<noteq> [] then ''+site:'' @ quote_plus s else ''''
        | None \<Rightarrow> '''')"

text \<open>
  The local dict \<open>qd\<close> of the \<open>query\<close> property: a copy of \<open>_query_dict\<close> with
  \<open>num\<close>, \<open>start\<close> and \<open>q\<close> assigned, in this order.
\<close>

definition query_qd :: "GoogleUrl \<Rightarrow> qdict" where
  "query_qd u =
     dict_set ''q'' (PyStr (q_value u))
       (dict_set ''start'' (PyInt (u_start u))
         (dict_set ''num'' (PyInt (u_num u)) (u_query_dict u)))"

text \<open>
  \<open>'%s=%s' % (k, qd[k])\<close> for a key \<open>k\<close> of \<open>qd\<close>.  The keys come from
  \<open>qd.keys()\<close>, so the lookup finds a value; the other branch is never taken.
\<close>

definition format_item :: "qdict \<Rightarrow> string \<Rightarrow> string" where
  "format_item qd k =
     (case map_of qd k of Some v \<Rightarrow> k @ ''='' @ str_pyval v | None \<Rightarrow> k @ ''='')"

definition query :: "GoogleUrl \<Rightarrow> string" where
  "query u =
     (let qd = query_qd u
      in py_join ''&'' (map (format_item qd) (sort (map fst qd))))"

definition relative :: "GoogleUrl \<Rightarrow> string" where
  "relative u =
     u_path u
     @ (if u_params u \<noteq> [] then '';'' @ u_params u else '''')
     @ (if query u \<noteq> [] then ''?'' @ query u else '''')
     @ (if u_fragment u \<noteq> [] then ''#'' @ u_fragment u else '''')"

text \<open>
  The states a caller can reach: construction, then any sequence of the public
  operations (a navigation call that raises leaves the state as it was).
\<close>

inductive reachable :: "GoogleUrl \<Rightarrow> bool" where
  r_init: "reachable (GoogleUrl_init os)"
| r_update: "reachable u \<Longrightarrow> reachable (update u os)"
| r_set_queries: "reachable u \<Longrightarrow> reachable (set_queries u kwargs)"
| r_unset_queries: "reachable u \<Longrightarrow> reachable (unset_queries u args)"
| r_set_keywords: "reachable u \<Longrightarrow> reachable (set_keywords u k)"
| r_next_page: "reachable u \<Longrightarrow> reachable (next_page u)"
| r_prev_page: "reachable u \<Longrightarrow> prev_page u = Inr u' \<Longrightarrow> reachable u'"
| r_first_page: "reachable u \<Longrightarrow> first_page u = Inr u' \<Longrightarrow> reachable u'"

text \<open>
  Reading a query string back, to say what it contains: the pieces between \<open>&\<close>,
  and of each piece the key before the first \<open>=\<close> and the value after it.
\<close>

fun split_on :: "char \<Rightarrow> string \<Rightarrow> string list" where
  "split_on c [] = [[]]"
| "split_on c (x # xs) =
     (if x = c then [] # split_on c xs
      else (case split_on c xs of w # ws \<Rightarrow> (x # w) # ws | [] \<Rightarrow> [[x]]))"

definition param_of :: "string \<Rightarrow> string \<times> string" where
  "param_of piece =
     (takeWhile (\<lambda>c. c \<noteq> CHR ''='') piece, drop 1 (dropWhile (\<lambda>c. c \<noteq> CHR ''='') piece))"

definition query_params :: "string \<Rightarrow> (string \<times> string) list" where
  "query_params s = map param_of (split_on CHR ''&'' s)"

definition example_url :: GoogleUrl where
  "example_url = update (GoogleUrl_init no_opts)
     (no_opts\<lparr>o_keywords := Some (KwList [''hello world'', ''a&b'']), o_start := Some 5\<rparr>)"

text \<open>
  A dict entry whose rendering \<open>key=value\<close> reads back as itself: no \<open>&\<close> in the
  key or in the value as printed, no \<open>=\<close> in the key.
\<close>

definition plain_item :: "string \<times> pyval \<Rightarrow> bool" where
  "plain_item kv \<longleftrightarrow>
     CHR ''&'' \<notin> set (fst kv) \<and> CHR ''='' \<notin> set (fst kv) \<and> CHR ''&'' \<notin> set (str_pyval (snd kv))"

text \<open>The state after \<open>googler --lang 'en&q=y' x\<close>: \<open>lang\<close> is an unchecked string.\<close>

definition lang_url :: GoogleUrl where
  "lang_url = GoogleUrl_init (no_opts\<lparr>o_keywords := Some (KwList [''x'']), o_lang := Some ''en&q=y''\<rparr>)"

section \<open>GoogleConnection: the fetch layer\<close>

subsection \<open>String operations of Python used by the fetch layer and the parser\<close>

text \<open>
  \<open>find_sub sub s\<close> is the least index at which \<open>sub\<close> occurs in \<open>s\<close>, if any.
  \<open>s.find(sub)\<close> turns a miss into \<open>-1\<close>, \<open>sub in s\<close> asks whether there is a hit.
\<close>

fun find_sub :: "string \<Rightarrow> string \<Rightarrow> nat option" where
  "find_sub sub [] = (if sub = [] then Some 0 else None)"
| "find_sub sub (x # xs) =
     (if prefix sub (x # xs) then Some 0 else map_option Suc (find_sub sub xs))"

definition py_find :: "string \<Rightarrow> string \<Rightarrow> int" where
  "py_find s sub = (case find_sub sub s of None \<Rightarrow> - 1 | Some i \<Rightarrow> int i)"

definition py_in :: "string \<Rightarrow> string \<Rightarrow> bool" where
  "py_in sub s \<longleftrightarrow> find_sub sub s \<noteq> None"

text \<open>The slice \<open>s[:k]\<close>: a negative \<open>k\<close> counts from the end of \<open>s\<close>.\<close>

definition py_slice_to :: "string \<Rightarrow> int \<Rightarrow> string" where
  "py_slice_to s k = (if k < 0 then take (nat (int (length s) + k)) s else take (nat k) s)"

subsection \<open>The network, as the connection sees it\<close>

text \<open>
  What \<open>http.client\<close> hands back is an input of the model.  A response carries its
  status line, the two headers the code reads (\<open>None\<close> when the header is absent) and
  its payload as text, after \<open>gzip.decompress\<close> and \<open>decode('utf-8')\<close>.
\<close>

record response =
  status :: int
  reason :: string
  location :: "string option"
  set_cookie :: "string option"
  payload :: string

text \<open>
  \<open>request\<close> followed by \<open>getresponse\<close> gives a response or raises; the two
  exception families \<open>fetch_page\<close> names are \<open>http.client.HTTPException\<close> and
  \<open>OSError\<close> (connection reset, timeout).
\<close>

datatype get_outcome = Response response | RaiseHTTPException | RaiseOSError

text \<open>
  The network is a script: the outcome of the \<open>n\<close>-th GET and of the \<open>n\<close>-th
  \<open>connect\<close> (\<open>None\<close>: connected; \<open>Some e\<close>: raised an exception that prints as
  \<open>e\<close>), counted from 0 over the connection object's life.  \<open>urlparse\<close> is from the
  standard library: \<open>netloc_of\<close> is \<open>urlparse(url).netloc\<close> and \<open>relurl_of\<close> is
  \<open>urlunparse(('', '') + urlparse(url)[2:])\<close>.
\<close>

record network =
  get_outcomes :: "nat \<Rightarrow> get_outcome"
  connect_outcomes :: "nat \<Rightarrow> string option"
  netloc_of :: "string \<Rightarrow> string"
  relurl_of :: "string \<Rightarrow> string"

text \<open>
  Every call the connection makes on the transport is logged:
  \<open>Close\<close> for \<open>self._conn.close()\<close>, \<open>Connect host\<close> for a new
  \<open>TLS1_2Connection\<close> and its \<open>connect\<close>, \<open>Request url cookie\<close> for a GET of \<open>url\<close>
  sent with the header \<open>Cookie: cookie\<close>.
\<close>

datatype action = Close | Connect string | Request string string

fun is_Connect :: "action \<Rightarrow> bool" where
  "is_Connect (Connect h) = True"
| "is_Connect a = False"

fun is_Request :: "action \<Rightarrow> bool" where
  "is_Request (Request u c) = True"
| "is_Request a = False"

record GoogleConnection =
  c_host :: string
  c_port :: "int option"
  c_proxy :: "string option"
  c_conn :: bool
  c_cookie :: string
  c_resp :: "response option"
  c_trace :: "action list"

definition connects :: "GoogleConnection \<Rightarrow> nat" where
  "connects c = length (filter is_Connect (c_trace c))"

definition requests :: "GoogleConnection \<Rightarrow> nat" where
  "requests c = length (filter is_Request (c_trace c))"

text \<open>
  \<open>new_connection(host, port)\<close>: close the current connection if there is one, fall
  back to the current host and port when \<open>host\<close> is \<open>None\<close> or empty, connect (through
  the proxy when one is set), and wrap any failure in \<open>GoogleConnectionError\<close>.
\<close>

definition host_display :: "string \<Rightarrow> int option \<Rightarrow> string" where
  "host_display h p =
     h @ (case p of Some n \<Rightarrow> if n \<noteq> 0 then '':'' @ str_int n else '''' | None \<Rightarrow> '''')"

definition connect_failure :: "GoogleConnection \<Rightarrow> string \<Rightarrow> error" where
  "connect_failure c e =
     (case c_proxy c of
        Some p \<Rightarrow>
          if p \<noteq> [] then GoogleConnectionError (''Failed to connect to proxy server '' @ p @ '': '' @ e @ ''.'')
          else GoogleConnectionError (''Failed to connect to '' @ host_display (c_host c) (c_port c) @ '': '' @ e @ ''.'')
      | None \<Rightarrow>
          GoogleConnectionError (''Failed to connect to '' @ host_display (c_host c) (c_port c) @ '': '' @ e @ ''.''))"

definition new_connection ::
  "network \<Rightarrow> GoogleConnection \<Rightarrow> string option \<Rightarrow> int option \<Rightarrow> (error + unit) \<times> GoogleConnection" where
  "new_connection net c host port =
     (let c1 = (if c_conn c then c\<lparr>c_trace := c_trace c @ [Close]\<rparr> else c);
          c2 = (case host of
                  Some h \<Rightarrow> if h \<noteq> [] then c1\<lparr>c_host := h, c_port := port\<rparr> else c1
                | None \<Rightarrow> c1);
          c3 = c2\<lparr>c_conn := True, c_trace := c_trace c2 @ [Connect (c_host c2)]\<rparr>
      in case connect_outcomes net (connects c2) of
           None \<Rightarrow> (Inr (), c3)
         | Some e \<Rightarrow> (Inl (connect_failure c3 e), c3))"

definition renew_connection :: "network \<Rightarrow> GoogleConnection \<Rightarrow> (error + unit) \<times> GoogleConnection" where
  "renew_connection net c = new_connection net c None None"

text \<open>
  \<open>__init__(host, port, proxy)\<close>.  The callers pass the host name of a
  \<open>GoogleUrl\<close>; with an empty \<open>host\<close> the code would add \<open>None\<close> to a string.
\<close>

definition GoogleConnection_init ::
  "network \<Rightarrow> string \<Rightarrow> int option \<Rightarrow> string option \<Rightarrow> (error + unit) \<times> GoogleConnection" where
  "GoogleConnection_init net host port proxy =
     (let c0 = \<lparr>c_host = '''', c_port = None, c_proxy = proxy, c_conn = False,
                 c_cookie = '''', c_resp = None, c_trace = []\<rparr>
      in if host = [] then (Inl TypeError, c0)
         else (case new_connection net c0 (Some host) port of
                 (Inl e, c1) \<Rightarrow> (Inl e, c1)
               | (Inr u, c1) \<Rightarrow> (Inr (), c1\<lparr>c_cookie := ''''\<rparr>)))"

text \<open>
  \<open>_raw_get(url)\<close>: one GET with the stored cookie; the response is kept in
  \<open>self._resp\<close> (and returned here, for the callers that read \<open>self._resp\<close> next).
  While no cookie is stored, a \<open>Set-Cookie\<close> header is cut at
  \<open>complete_cookie.find(';')\<close> and stored.
\<close>

definition raw_get :: "network \<Rightarrow> GoogleConnection \<Rightarrow> string \<Rightarrow> (error + response) \<times> GoogleConnection" where
  "raw_get net c url =
     (let c1 = c\<lparr>c_trace := c_trace c @ [Request url (c_cookie c)]\<rparr>
      in case get_outcomes net (requests c) of
           RaiseHTTPException \<Rightarrow> (Inl HTTPException, c1)
         | RaiseOSError \<Rightarrow> (Inl OSError, c1)
         | Response r \<Rightarrow>
             (let c2 = c1\<lparr>c_resp := Some r\<rparr>
              in if c_cookie c2 = ''''
                 then (case set_cookie r of
                         None \<Rightarrow> (Inr r, c2)
                       | Some complete_cookie \<Rightarrow>
                           (Inr r, c2\<lparr>c_cookie :=
                              py_slice_to complete_cookie (py_find complete_cookie '';'')\<rparr>))
                 else (Inr r, c2)))"

text \<open>The message \<open>"Failed to get '%s'." % url\<close>.\<close>

definition failed_to_get :: "string \<Rightarrow> error" where
  "failed_to_get url = GoogleConnectionError (''Failed to get '' @ [CHR 0x27] @ url @ [CHR 0x27] @ ''.'')"

text \<open>
  The \<open>try\<close> block that opens \<open>fetch_page\<close>: a first \<open>_raw_get\<close>; on
  \<open>HTTPException\<close> or \<open>OSError\<close> a \<open>renew_connection\<close> and a second \<open>_raw_get\<close>,
  whose \<open>except\<close> clause names \<open>HTTPException\<close> only.
\<close>

definition get_with_retry :: "network \<Rightarrow> GoogleConnection \<Rightarrow> string \<Rightarrow> (error + response) \<times> GoogleConnection" where
  "get_with_retry net c url =
     (case raw_get net c url of
        (Inr r, c1) \<Rightarrow> (Inr r, c1)
      | (Inl e, c1) \<Rightarrow>
          if e = HTTPException \<or> e = OSError then
            (case renew_connection net c1 of
               (Inl e2, c2) \<Rightarrow> (Inl e2, c2)
             | (Inr u, c2) \<Rightarrow>
                 (case raw_get net c2 url of
                    (Inr r, c3) \<Rightarrow> (Inr r, c3)
                  | (Inl e3, c3) \<Rightarrow>
                      if e3 = HTTPException then (Inl (failed_to_get url), c3) else (Inl e3, c3)))
          else (Inl e, c1))"

text \<open>
  \<open>_redirect(url)\<close>: a new connection when the target's host differs from the
  current one, then a GET of the relative URL.
\<close>

definition redirect :: "network \<Rightarrow> GoogleConnection \<Rightarrow> string \<Rightarrow> (error + response) \<times> GoogleConnection" where
  "redirect net c url =
     (let host = netloc_of net url;
          (r0, c1) = (if host \<noteq> c_host c then new_connection net c (Some host) None else (Inr (), c))
      in case r0 of
           Inl e \<Rightarrow> (Inl e, c1)
         | Inr u \<Rightarrow>
             (case raw_get net c1 (relurl_of net url) of
                (Inr r, c2) \<Rightarrow> (Inr r, c2)
              | (Inl e, c2) \<Rightarrow>
                  if e = HTTPException then (Inl (failed_to_get url), c2) else (Inl e, c2)))"

definition is_redirect_status :: "int \<Rightarrow> bool" where
  "is_redirect_status s \<longleftrightarrow> s \<in> {301, 302, 303, 307, 308}"

definition blocked_url :: "string \<Rightarrow> bool" where
  "blocked_url u \<longleftrightarrow> py_in ''sorry/IndexRedirect?'' u \<or> py_in ''sorry/index?'' u"

definition blocked_error :: error where
  "blocked_error = GoogleConnectionError ''Connection blocked due to unusual activity.''"

text \<open>
  The \<open>while\<close> loop of \<open>fetch_page\<close>, entered with the current response and
  \<open>redirect_counter\<close>; it ends with the response that the status check then reads.
\<close>

function redirect_loop ::
  "network \<Rightarrow> GoogleConnection \<Rightarrow> response \<Rightarrow> nat \<Rightarrow> (error + response) \<times> GoogleConnection" where
  "redirect_loop net c resp redirect_counter =
     (if status resp \<noteq> 200 \<and> redirect_counter < 3 then
        if is_redirect_status (status resp) then
          (let redirection_url = (case location resp of Some l \<Rightarrow> l | None \<Rightarrow> '''')
           in if blocked_url redirection_url then (Inl blocked_error, c)
              else (case redirect net c redirection_url of
                      (Inl e, c1) \<Rightarrow> (Inl e, c1)
                    | (Inr resp1, c1) \<Rightarrow> redirect_loop net c1 resp1 (redirect_counter + 1)))
        else (Inr resp, c)
      else (Inr resp, c))"
  by pat_completeness auto
termination
  by (relation "measure (\<lambda>(net, c, resp, redirect_counter). 3 - redirect_counter)") auto

declare redirect_loop.simps [simp del]

definition fetch_page :: "network \<Rightarrow> GoogleConnection \<Rightarrow> string \<Rightarrow> (error + string) \<times> GoogleConnection" where
  "fetch_page net c url =
     (case get_with_retry net c url of
        (Inl e, c1) \<Rightarrow> (Inl e, c1)
      | (Inr resp0, c1) \<Rightarrow>
          (case redirect_loop net c1 resp0 0 of
             (Inl e, c2) \<Rightarrow> (Inl e, c2)
           | (Inr resp, c2) \<Rightarrow>
               if status resp \<noteq> 200
               then (Inl (GoogleConnectionError
                            (''Got HTTP '' @ str_int (status resp) @ '': '' @ reason resp)), c2)
               else (Inr (payload resp), c2)))"

text \<open>The exception class of an error: what an \<open>except\<close> clause can tell apart.\<close>

datatype exception_class =
  KeyError_class | AttributeError_class | TypeError_class | ValueError_class
  | HTTPException_class | OSError_class | GoogleConnectionError_class

fun class_of :: "error \<Rightarrow> exception_class" where
  "class_of KeyError = KeyError_class"
| "class_of AttributeError = AttributeError_class"
| "class_of TypeError = TypeError_class"
| "class_of (ValueError m) = ValueError_class"
| "class_of HTTPException = HTTPException_class"
| "class_of OSError = OSError_class"
| "class_of (GoogleConnectionError m) = GoogleConnectionError_class"

subsection \<open>Concrete networks\<close>

text \<open>
  The examples use redirect targets without a host part, for which \<open>urlparse\<close>
  gives an empty \<open>netloc\<close> and \<open>urlunparse\<close> gives the target back.
\<close>

definition ok_response :: response where
  "ok_response = \<lparr>status = 200, reason = ''OK'', location = None, set_cookie = None,
     payload = ''<html></html>''\<rparr>"


definition script :: "get_outcome list \<Rightarrow> network" where
  "script outcomes =
     \<lparr>get_outcomes = (\<lambda>n. if n < length outcomes then outcomes ! n else RaiseOSError),
      connect_outcomes = (\<lambda>n. None),
      netloc_of = (\<lambda>url. ''''),
      relurl_of = (\<lambda>url. url)\<rparr>"

text \<open>A connection to \<open>www.google.com\<close>, as \<open>GooglerCmd\<close> opens it, before any request.\<close>

definition conn0 :: GoogleConnection where
  "conn0 = \<lparr>c_host = ''www.google.com'', c_port = None, c_proxy = None, c_conn = True,
     c_cookie = '''', c_resp = None, c_trace = [Connect ''www.google.com'']\<rparr>"

section \<open>Result and Sitelink\<close>

record sitelink =
  sl_title :: string
  sl_url :: string
  sl_abstract :: string
  sl_index :: string

text \<open>\<open>Sitelink(title, url, abstract)\<close>: the index starts empty.\<close>

definition Sitelink :: "string \<Rightarrow> string \<Rightarrow> string \<Rightarrow> sitelink" where
  "Sitelink t u a = \<lparr>sl_title = t, sl_url = u, sl_abstract = a, sl_index = ''''\<rparr>"

record result =
  r_index :: string
  r_title :: string
  r_url :: string
  r_abstract :: string
  r_metadata :: "string option"
  r_sitelinks :: "sitelink list"
  r_urltable :: "(string \<times> string) list"

text \<open>
  \<open>chr(n)\<close> as the UTF-8 bytes of the code point \<open>n\<close>; Python raises
  \<open>ValueError\<close> from \<open>0x110000\<close> on.
\<close>

definition utf8 :: "nat \<Rightarrow> string" where
  "utf8 n =
     (if n < 0x80 then [char_of n]
      else if n < 0x800 then [char_of (0xC0 + n div 64), char_of (0x80 + n mod 64)]
      else if n < 0x10000 then
        [char_of (0xE0 + n div 4096), char_of (0x80 + (n div 64) mod 64), char_of (0x80 + n mod 64)]
      else
        [char_of (0xF0 + n div 262144), char_of (0x80 + (n div 4096) mod 64),
         char_of (0x80 + (n div 64) mod 64), char_of (0x80 + n mod 64)])"

definition py_chr :: "nat \<Rightarrow> error + string" where
  "py_chr n = (if n < 0x110000 then Inr (utf8 n) else Inl (ValueError ''chr() arg not in range(0x110000)''))"

text \<open>
  The loop of \<open>Result.__init__\<close> over the sitelinks, with \<open>subindex\<close> held as its
  code point (\<open>ord('a') = 97\<close>).  Each sitelink gets \<open>index + subindex\<close> as its
  index and an entry in the table; \<open>subindex = chr(ord(subindex) + 1)\<close> closes the
  iteration.  It returns the sitelinks as the loop leaves them and the table.
\<close>

fun index_sitelinks ::
  "string \<Rightarrow> nat \<Rightarrow> sitelink list \<Rightarrow> (string \<times> string) list
     \<Rightarrow> error + (sitelink list \<times> (string \<times> string) list)" where
  "index_sitelinks index subindex [] urltable = Inr ([], urltable)"
| "index_sitelinks index subindex (sl # sls) urltable =
     (let fullindex = index @ utf8 subindex;
          sl' = sl\<lparr>sl_index := fullindex\<rparr>;
          urltable' = dict_set fullindex (sl_url sl) urltable
      in case py_chr (subindex + 1) of
           Inl e \<Rightarrow> Inl e
         | Inr next_subindex \<Rightarrow>
             (case index_sitelinks index (subindex + 1) sls urltable' of
                Inl e \<Rightarrow> Inl e
              | Inr (sls', t) \<Rightarrow> Inr (sl' # sls', t)))"

text \<open>
  \<open>Result.__init__(index, title, url, abstract, metadata, sitelinks)\<close>.  The
  argument \<open>sitelinks\<close> is \<open>None\<close> (its default) or a list.  The field is
  normalised to a list, but the loop iterates the argument, and iterating \<open>None\<close>
  raises \<open>TypeError\<close>.
\<close>

definition Result_init ::
  "pyval \<Rightarrow> string \<Rightarrow> string \<Rightarrow> string \<Rightarrow> string option \<Rightarrow> sitelink list option \<Rightarrow> error + result" where
  "Result_init index0 title url abstract metadata sitelinks =
     (let index = str_pyval index0;
          urltable = [(index, url)]
      in case sitelinks of
           None \<Rightarrow> Inl TypeError
         | Some sls \<Rightarrow>
             (case index_sitelinks index 97 sls urltable of
                Inl e \<Rightarrow> Inl e
              | Inr (sls', t) \<Rightarrow>
                  Inr \<lparr>r_index = index, r_title = title, r_url = url, r_abstract = abstract,
                       r_metadata = metadata, r_sitelinks = sls', r_urltable = t\<rparr>))"

text \<open>\<open>urltable()\<close> returns the table built by the constructor.\<close>

definition urltable :: "result \<Rightarrow> (string \<times> string) list" where
  "urltable r = r_urltable r"

text \<open>The sub-index letters \<open>a\<close>, \<open>b\<close>, \<open>c\<close>, \<dots> by position.\<close>

definition letter :: "nat \<Rightarrow> char" where
  "letter i = ''abcdefghijklmnopqrstuvwxyz'' ! i"

section \<open>GoogleParser: the result parser\<close>

subsection \<open>What the tokenizer delivers\<close>

text \<open>
  \<open>GoogleParser\<close> extends \<open>html.parser.HTMLParser\<close> of the standard library, which
  cuts the markup into calls of \<open>handle_starttag(tag, attrs)\<close>, \<open>handle_endtag(tag)\<close>
  and \<open>handle_data(data)\<close>; \<open>feed\<close> is this sequence of calls (a tag written
  \<open><br/>\<close> is a start tag followed by an end tag).  An attribute written without a
  value has the value \<open>None\<close>.  The tokenizer runs with \<open>convert_charrefs\<close>, so
  character and entity references arrive decoded inside the data and the
  parser's \<open>handle_entityref\<close> and \<open>handle_charref\<close> are not called.
\<close>

type_synonym attrs = "(string \<times> string option) list"

datatype event = StartTag string attrs | EndTag string | Data string

text \<open>\<open>dict(attrs)\<close>, then \<open>attrs.get(k)\<close>: of two attributes with one name the later wins.\<close>

definition attrs_get :: "attrs \<Rightarrow> string \<Rightarrow> string option option" where
  "attrs_get attrs k = map_of (rev attrs) k"

text \<open>\<open>s.split()\<close>: the words of \<open>s\<close> between runs of (ASCII) white space.\<close>

definition py_isspace :: "char \<Rightarrow> bool" where
  "py_isspace c \<longleftrightarrow>
     c \<in> {CHR '' '', CHR 0x09, CHR 0x0A, CHR 0x0B, CHR 0x0C, CHR 0x0D,
          CHR 0x1C, CHR 0x1D, CHR 0x1E, CHR 0x1F}"

fun split_words :: "string \<Rightarrow> string \<Rightarrow> string list" where
  "split_words w [] = (if w = [] then [] else [w])"
| "split_words w (c # cs) =
     (if py_isspace c then (if w = [] then split_words [] cs else w # split_words [] cs)
      else split_words (w @ [c]) cs)"

definition py_split :: "string \<Rightarrow> string list" where
  "py_split s = split_words [] s"

text \<open>
  \<open>classes(attrs)\<close> is \<open>attrs.get('class', '').split()\<close>: a \<open>class\<close> attribute
  without a value is \<open>None\<close>, which has no \<open>split\<close>.
\<close>

definition classes :: "attrs \<Rightarrow> error + string list" where
  "classes attrs =
     (case attrs_get attrs ''class'' of
        None \<Rightarrow> Inr (py_split '''')
      | Some None \<Rightarrow> Inl AttributeError
      | Some (Some v) \<Rightarrow> Inr (py_split v))"

text \<open>The test \<open>tag == t and c in self.classes(attrs)\<close>, evaluated left to right.\<close>

definition tag_with_class :: "string \<Rightarrow> attrs \<Rightarrow> string \<Rightarrow> string \<Rightarrow> error + bool" where
  "tag_with_class tag attrs t c =
     (if tag = t
      then (case classes attrs of Inl e \<Rightarrow> Inl e | Inr cs \<Rightarrow> Inr (c \<in> set cs))
      else Inr False)"

text \<open>\<open>g and \<dots>\<close>: the right operand is evaluated only when \<open>g\<close> holds.\<close>

definition guarded :: "bool \<Rightarrow> error + bool \<Rightarrow> error + bool" where
  "guarded g x = (if g then x else Inr False)"

subsection \<open>String operations of the handlers\<close>

text \<open>\<open>s.replace(old, new)\<close> for a non-empty \<open>old\<close>, and \<open>s.replace(old, new, 1)\<close>.\<close>

function py_replace :: "string \<Rightarrow> string \<Rightarrow> string \<Rightarrow> string" where
  "py_replace old new [] = []"
| "py_replace old new (c # cs) =
     (if old \<noteq> [] \<and> prefix old (c # cs)
      then new @ py_replace old new (drop (length old) (c # cs))
      else c # py_replace old new cs)"
  by pat_completeness auto
termination
  by (relation "measure (\<lambda>(old, new, s). length s)") auto

fun py_replace_first :: "string \<Rightarrow> string \<Rightarrow> string \<Rightarrow> string" where
  "py_replace_first old new [] = []"
| "py_replace_first old new (c # cs) =
     (if old \<noteq> [] \<and> prefix old (c # cs)
      then new @ drop (length old) (c # cs)
      else c # py_replace_first old new cs)"

text \<open>
  \<open>urllib.parse.unquote_plus\<close> of the standard library on bytes: \<open>+\<close> becomes a
  space, then every \<open>%XX\<close> with two hexadecimal digits becomes the byte \<open>XX\<close>
  (Python then reads the bytes as UTF-8 and puts a replacement character where they
  are not; the model keeps the bytes).
\<close>

definition hex_val :: "char \<Rightarrow> nat option" where
  "hex_val c =
     (if c \<in> set ''0123456789'' then Some (of_char c - 48)
      else if c \<in> set ''abcdef'' then Some (of_char c - 87)
      else if c \<in> set ''ABCDEF'' then Some (of_char c - 55)
      else None)"

fun unquote :: "string \<Rightarrow> string" where
  "unquote (c # h1 # h2 # cs) =
     (if c = CHR ''%'' then
        (case hex_val h1 of
           None \<Rightarrow> c # unquote (h1 # h2 # cs)
         | Some a \<Rightarrow>
             (case hex_val h2 of
                None \<Rightarrow> c # unquote (h1 # h2 # cs)
              | Some b \<Rightarrow> char_of (16 * a + b) # unquote cs))
      else c # unquote (h1 # h2 # cs))"
| "unquote cs = cs"

definition unquote_plus :: "string \<Rightarrow> string" where
  "unquote_plus s = unquote (map (\<lambda>c. if c = CHR ''+'' then CHR '' '' else c) s)"

text \<open>
  The unwrapping of a result link: with \<open>start\<close> just after the first \<open>?q=\<close> and
  \<open>end\<close> at the first \<open>&sa=\<close> from \<open>start\<close> on, the URL is
  \<open>unquote_plus(url[start:end])\<close>; when either \<open>index\<close> raises \<open>ValueError\<close> the
  URL stays the \<open>href\<close>.
\<close>

definition unwrap_url :: "string \<Rightarrow> string" where
  "unwrap_url href =
     (case find_sub ''?q='' href of
        None \<Rightarrow> href
      | Some i \<Rightarrow>
          (let start = i + 3
           in case find_sub ''&sa='' (drop start href) of
                None \<Rightarrow> href
              | Some j \<Rightarrow> unquote_plus (take j (drop start href))))"

definition startswith :: "string \<Rightarrow> string \<Rightarrow> bool" where
  "startswith s pre \<longleftrightarrow> prefix pre s"

subsection \<open>Scopes, annotations and the parser state\<close>

text \<open>
  The handler pair bound to \<open>handle_starttag\<close> and \<open>handle_endtag\<close> is named by its
  scope: \<open>S_root\<close> stands for \<open>root_start\<close> and \<open>root_end\<close>, and so on.
\<close>

datatype scope =
  S_root | S_result | S_title | S_abstract | S_sitelink_table | S_sitelink
  | S_sitelink_title | S_ignore

text \<open>
  The annotation strings: \<open>A_result\<close> is \<open>'result'\<close>, \<open>A_title_link\<close> is
  \<open>'title_link'\<close>, \<dots>, and \<open>A_ignored s\<close> is the name of scope \<open>s\<close> followed by
  \<open>'_ignored'\<close>, the only annotations that end so.  Python's \<open>None\<close> is \<open>None\<close>.
\<close>

datatype annotation =
  A_result | A_spell | A_title_filetype | A_title | A_title_link | A_abstract
  | A_abstract_text | A_abstract_gservices | A_sitelink_table | A_sitelink
  | A_sitelink_title | A_sitelink_title_link | A_sitelink_abstract | A_news_metadata
  | A_news_abstract | A_ignored scope

text \<open>
  What is bound to \<open>handle_data\<close>: the inherited handler that does nothing,
  \<open>record_data\<close>, or \<open>record_transformed_data\<close> with its transformer.
\<close>

datatype data_handler = Drop_data | Record_data | Record_transformed "string \<Rightarrow> string"

text \<open>
  The fields of the parser object, with the prefix \<open>p_\<close>.  \<open>p_tag_annotations\<close> is
  the dict from tag name to its list of annotations; the list is kept with its last
  element first, so that \<open>append\<close> is \<open>#\<close> and \<open>pop()\<close> takes the head.  The result
  registers (\<open>title\<close> \<dots> \<open>current_sitelink\<close>) are created by the handlers that
  initialise them, and are read only in scopes entered after that; here they exist
  from the start.
\<close>

record GoogleParser =
  p_news :: bool
  p_autocorrected :: bool
  p_suggested_spelling :: "string option"
  p_filtered :: bool
  p_results :: "result list"
  p_index :: int
  p_textbuf :: string
  p_tag_annotations :: "string \<Rightarrow> annotation option list option"
  p_scope :: scope
  p_handle_data :: data_handler
  p_title :: string
  p_url :: string
  p_abstract :: string
  p_metadata :: string
  p_sitelinks :: "sitelink list"
  p_title_registered :: bool
  p_abstract_registered :: bool
  p_metadata_registered :: bool
  p_current_sitelink :: sitelink

definition GoogleParser_init :: "bool \<Rightarrow> GoogleParser" where
  "GoogleParser_init news =
     \<lparr>p_news = news, p_autocorrected = False, p_suggested_spelling = None, p_filtered = False,
      p_results = [], p_index = 0, p_textbuf = '''', p_tag_annotations = (\<lambda>tag. None),
      p_scope = S_root, p_handle_data = Drop_data,
      p_title = '''', p_url = '''', p_abstract = '''', p_metadata = '''', p_sitelinks = [],
      p_title_registered = False, p_abstract_registered = False, p_metadata_registered = False,
      p_current_sitelink = Sitelink '''' '''' ''''\<rparr>"

subsection \<open>Generic methods\<close>

definition set_handlers_to :: "GoogleParser \<Rightarrow> scope \<Rightarrow> GoogleParser" where
  "set_handlers_to p s = p\<lparr>p_scope := s\<rparr>"

definition insert_annotation :: "GoogleParser \<Rightarrow> string \<Rightarrow> annotation option \<Rightarrow> GoogleParser" where
  "insert_annotation p tag annotation =
     p\<lparr>p_tag_annotations := (p_tag_annotations p)
          (tag \<mapsto> annotation # (case p_tag_annotations p tag of None \<Rightarrow> [] | Some st \<Rightarrow> st))\<rparr>"

text \<open>
  The body of \<open>retrieve_tag_annotation\<close>: \<open>self.tag_annotations[tag].pop()\<close> inside
  \<open>try \<dots> except IndexError\<close>.  An empty list raises \<open>IndexError\<close>, which is
  caught; a tag name that is not a key of the dict raises \<open>KeyError\<close>, which is not.
\<close>

definition pop_annotation :: "GoogleParser \<Rightarrow> string \<Rightarrow> error + (annotation option \<times> GoogleParser)" where
  "pop_annotation p tag =
     (case p_tag_annotations p tag of
        None \<Rightarrow> Inl KeyError
      | Some [] \<Rightarrow> Inr (None, p)
      | Some (a # st) \<Rightarrow> Inr (a, p\<lparr>p_tag_annotations := (p_tag_annotations p)(tag \<mapsto> st)\<rparr>))"

definition start_populating_textbuf :: "GoogleParser \<Rightarrow> (string \<Rightarrow> string) option \<Rightarrow> GoogleParser" where
  "start_populating_textbuf p data_transformer =
     (case data_transformer of
        None \<Rightarrow> p\<lparr>p_handle_data := Record_data\<rparr>
      | Some f \<Rightarrow> p\<lparr>p_handle_data := Record_transformed f\<rparr>)"

definition stop_populating_textbuf :: "GoogleParser \<Rightarrow> GoogleParser" where
  "stop_populating_textbuf p = p\<lparr>p_handle_data := Drop_data\<rparr>"

definition pop_textbuf :: "GoogleParser \<Rightarrow> string \<times> GoogleParser" where
  "pop_textbuf p = (p_textbuf p, p\<lparr>p_textbuf := ''''\<rparr>)"

definition handle_data :: "GoogleParser \<Rightarrow> string \<Rightarrow> GoogleParser" where
  "handle_data p data =
     (case p_handle_data p of
        Drop_data \<Rightarrow> p
      | Record_data \<Rightarrow> p\<lparr>p_textbuf := p_textbuf p @ data\<rparr>
      | Record_transformed f \<Rightarrow> p\<lparr>p_textbuf := p_textbuf p @ f data\<rparr>)"

subsection \<open>The ignore list\<close>

type_synonym selector = "(string \<times> string) list"

definition IGNORE_LIST :: "selector list" where
  "IGNORE_LIST =
     [[(''tag'', ''div''), (''class'', ''related-question-pair'')],
      [(''tag'', ''div''), (''class'', ''g-blk'')],
      [(''tag'', ''div''), (''class'', ''hp-xpdbox'')]]"

text \<open>
  The inner loop of \<open>annotate_tag\<close> over the attributes of one selector: \<open>Inr True\<close>
  when the loop ends without \<open>break\<close>.
\<close>

fun selector_matches :: "selector \<Rightarrow> string \<Rightarrow> attrs \<Rightarrow> error + bool" where
  "selector_matches [] tag attrs = Inr True"
| "selector_matches ((attr, val) # rest) tag attrs =
     (if attr = ''tag'' then
        (if tag \<noteq> val then Inr False else selector_matches rest tag attrs)
      else if attr = ''class'' then
        (case classes attrs of
           Inl e \<Rightarrow> Inl e
         | Inr tag_classes \<Rightarrow>
             if \<not> set (py_split val) \<subseteq> set tag_classes then Inr False
             else selector_matches rest tag attrs)
      else
        (case attrs_get attrs attr of
           None \<Rightarrow> Inl KeyError
         | Some v \<Rightarrow> if v \<noteq> Some val then Inr False else selector_matches rest tag attrs))"

fun ignored_by :: "selector list \<Rightarrow> string \<Rightarrow> attrs \<Rightarrow> error + bool" where
  "ignored_by [] tag attrs = Inr False"
| "ignored_by (sel # sels) tag attrs =
     (case selector_matches sel tag attrs of
        Inl e \<Rightarrow> Inl e
      | Inr m \<Rightarrow> if m then Inr True else ignored_by sels tag attrs)"

subsection \<open>Tag handlers\<close>

text \<open>
  A start handler returns its annotation (\<open>None\<close> when it returns nothing) and the
  parser it leaves; \<open>ua\<close> is the module's global flag (user agent enabled).
\<close>

definition root_start :: "GoogleParser \<Rightarrow> string \<Rightarrow> attrs \<Rightarrow> error + (annotation option \<times> GoogleParser)" where
  "root_start p tag attrs =
     (case tag_with_class tag attrs ''div'' ''g'' of
        Inl e \<Rightarrow> Inl e
      | Inr is_result \<Rightarrow>
          if is_result then
            Inr (Some A_result,
                 set_handlers_to
                   (p\<lparr>p_title := '''', p_url := '''', p_abstract := '''', p_metadata := '''',
                      p_sitelinks := [], p_title_registered := False,
                      p_abstract_registered := False, p_metadata_registered := False\<rparr>)
                   S_result)
          else
            (case tag_with_class tag attrs ''span'' ''spell_orig'' of
               Inl e \<Rightarrow> Inl e
             | Inr is_spell_orig \<Rightarrow>
                 if is_spell_orig \<and> attrs_get attrs ''id'' \<noteq> Some (Some ''sifm'')
                 then Inr (None, p\<lparr>p_autocorrected := True\<rparr>)
                 else
                   (case tag_with_class tag attrs ''a'' ''spell'' of
                      Inl e \<Rightarrow> Inl e
                    | Inr is_spell \<Rightarrow>
                        if is_spell \<and> attrs_get attrs ''id'' \<noteq> Some (Some ''srfl'')
                        then Inr (Some A_spell, start_populating_textbuf p None)
                        else if tag = ''p'' \<and> attrs_get attrs ''id'' = Some (Some ''ofr'')
                        then Inr (None, p\<lparr>p_filtered := True\<rparr>)
                        else Inr (None, p))))"

definition root_end :: "GoogleParser \<Rightarrow> annotation option \<Rightarrow> GoogleParser" where
  "root_end p annotation =
     (if annotation = Some A_spell then
        (let (text, p1) = pop_textbuf (stop_populating_textbuf p)
         in p1\<lparr>p_suggested_spelling := Some text\<rparr>)
      else p)"

text \<open>The transformers passed to \<open>start_populating_textbuf\<close>.\<close>

definition append_space :: "string \<Rightarrow> string" where
  "append_space text = text @ '' ''"

definition metadata_separator_ua :: "string \<Rightarrow> string" where
  "metadata_separator_ua text = (if text = ''-'' then '', '' else text)"

definition metadata_separator_noua :: "string \<Rightarrow> string" where
  "metadata_separator_noua text =
     (if py_in '' - '' text then py_replace_first '' -'' '','' text else text)"

text \<open>
  The last part of \<open>result_start\<close>, under \<open>if self.news\<close>: the metadata and the
  abstract of a news result.
\<close>

definition result_start_news :: "bool \<Rightarrow> GoogleParser \<Rightarrow> string \<Rightarrow> attrs \<Rightarrow> error + (annotation option \<times> GoogleParser)" where
  "result_start_news ua p tag attrs =
     (if p_news p then
        (case guarded (\<not> p_metadata_registered p) (tag_with_class tag attrs ''div'' ''slp'') of
           Inl e \<Rightarrow> Inl e
         | Inr is_metadata \<Rightarrow>
             if is_metadata then
               Inr (Some A_news_metadata,
                    start_populating_textbuf p
                      (Some (if ua then metadata_separator_ua else metadata_separator_noua)))
             else
               (case guarded (\<not> p_abstract_registered p) (tag_with_class tag attrs ''div'' ''st'') of
                  Inl e \<Rightarrow> Inl e
                | Inr is_abstract \<Rightarrow>
                    if is_abstract then Inr (Some A_news_abstract, start_populating_textbuf p None)
                    else Inr (None, p)))
      else Inr (None, p))"

text \<open>
  The test \<open>not self.sitelinks and tag == 'table'\<close> with the nested
  \<open>ua or (not self.news and 'ts' not in self.classes(attrs))\<close>.
\<close>

definition sitelink_table_test :: "bool \<Rightarrow> GoogleParser \<Rightarrow> string \<Rightarrow> attrs \<Rightarrow> error + bool" where
  "sitelink_table_test ua p tag attrs =
     (if p_sitelinks p = [] \<and> tag = ''table'' then
        (if ua then Inr True
         else if \<not> p_news p then
           (case classes attrs of Inl e \<Rightarrow> Inl e | Inr cs \<Rightarrow> Inr (''ts'' \<notin> set cs))
         else Inr False)
      else Inr False)"

definition result_start :: "bool \<Rightarrow> GoogleParser \<Rightarrow> string \<Rightarrow> attrs \<Rightarrow> error + (annotation option \<times> GoogleParser)" where
  "result_start ua p tag attrs =
     (case guarded (\<not> ua) (tag_with_class tag attrs ''span'' ''mime'') of
        Inl e \<Rightarrow> Inl e
      | Inr is_mime \<Rightarrow>
          if is_mime then Inr (Some A_title_filetype, start_populating_textbuf p None)
          else
     (case guarded (\<not> p_title_registered p) (tag_with_class tag attrs ''h3'' ''r'') of
        Inl e \<Rightarrow> Inl e
      | Inr is_title \<Rightarrow>
          if is_title then Inr (Some A_title, set_handlers_to p S_title)
          else
     (case guarded (\<not> p_abstract_registered p) (tag_with_class tag attrs ''div'' ''s'') of
        Inl e \<Rightarrow> Inl e
      | Inr is_abstract \<Rightarrow>
          if is_abstract then Inr (Some A_abstract, set_handlers_to p S_abstract)
          else
     (case guarded (\<not> ua \<and> \<not> p_abstract_registered p) (tag_with_class tag attrs ''span'' ''st'') of
        Inl e \<Rightarrow> Inl e
      | Inr is_gservices \<Rightarrow>
          if is_gservices
          then Inr (Some A_abstract_gservices, start_populating_textbuf p (Some append_space))
          else
     (case sitelink_table_test ua p tag attrs of
        Inl e \<Rightarrow> Inl e
      | Inr is_table \<Rightarrow>
          if is_table then Inr (Some A_sitelink_table, set_handlers_to p S_sitelink_table)
          else result_start_news ua p tag attrs)))))"

text \<open>
  \<open>result_end\<close>.  On the annotation \<open>'result'\<close> a \<open>Result\<close> is built and appended
  only under \<open>if self.url\<close>; its \<open>sitelinks\<close> argument is the parser's list.  The
  \<open>Result\<close> keeps that list object, but the handlers then return to the root scope,
  and the only way back to a scope that appends to \<open>self.sitelinks\<close> is through
  \<open>root_start\<close>, which binds a fresh list: a result in \<open>p_results\<close> is a value.
\<close>

definition result_end :: "GoogleParser \<Rightarrow> annotation option \<Rightarrow> error + GoogleParser" where
  "result_end p annotation =
     (if annotation = Some A_result then
        (if p_url p \<noteq> '''' then
           (let index = p_index p + 1
            in case Result_init (PyInt index) (p_title p) (p_url p) (p_abstract p)
                      (if p_metadata p \<noteq> '''' then Some (p_metadata p) else None)
                      (Some (p_sitelinks p)) of
                 Inl e \<Rightarrow> Inl e
               | Inr result \<Rightarrow>
                   Inr (set_handlers_to (p\<lparr>p_index := index, p_results := p_results p @ [result]\<rparr>) S_root))
         else Inr (set_handlers_to p S_root))
      else if annotation = Some A_news_metadata then
        (let (text, p1) = pop_textbuf (stop_populating_textbuf p)
         in Inr (p1\<lparr>p_metadata := text, p_metadata_registered := True\<rparr>))
      else if annotation = Some A_news_abstract then
        (let (text, p1) = pop_textbuf (stop_populating_textbuf p)
         in Inr (p1\<lparr>p_abstract := text, p_abstract_registered := True\<rparr>))
      else if annotation = Some A_abstract_gservices then
        (let (text, p1) = pop_textbuf (stop_populating_textbuf p)
         in Inr (p1\<lparr>p_abstract := py_replace ''  '' '' '' text, p_abstract_registered := False\<rparr>))
      else Inr p)"

text \<open>
  \<open>title_start\<close>.  \<open>attrs['href']\<close> of an \<open>href\<close> written without a value is
  \<open>None\<close>, which has no \<open>startswith\<close>.
\<close>

definition title_start :: "bool \<Rightarrow> GoogleParser \<Rightarrow> string \<Rightarrow> attrs \<Rightarrow> error + (annotation option \<times> GoogleParser)" where
  "title_start ua p tag attrs =
     (if ua \<and> tag = ''span'' then
        Inr (Some A_title_filetype, start_populating_textbuf p (Some append_space))
      else if tag = ''a'' then
        (case attrs_get attrs ''href'' of
           None \<Rightarrow> Inr (None, p)
         | Some None \<Rightarrow> Inl AttributeError
         | Some (Some href) \<Rightarrow>
             if startswith href ''/search'' then Inr (None, p)
             else Inr (Some A_title_link, start_populating_textbuf (p\<lparr>p_url := unwrap_url href\<rparr>) None))
      else Inr (None, p))"

definition title_end :: "GoogleParser \<Rightarrow> annotation option \<Rightarrow> GoogleParser" where
  "title_end p annotation =
     (if annotation = Some A_title_filetype then stop_populating_textbuf p
      else if annotation = Some A_title_link then
        (let (text, p1) = pop_textbuf (stop_populating_textbuf p)
         in p1\<lparr>p_title := text, p_title_registered := True\<rparr>)
      else if annotation = Some A_title then set_handlers_to p S_result
      else p)"

definition abstract_start :: "GoogleParser \<Rightarrow> string \<Rightarrow> attrs \<Rightarrow> error + (annotation option \<times> GoogleParser)" where
  "abstract_start p tag attrs =
     (case tag_with_class tag attrs ''span'' ''st'' of
        Inl e \<Rightarrow> Inl e
      | Inr is_text \<Rightarrow>
          if is_text then Inr (Some A_abstract_text, start_populating_textbuf p None)
          else Inr (None, p))"

definition abstract_end :: "GoogleParser \<Rightarrow> annotation option \<Rightarrow> GoogleParser" where
  "abstract_end p annotation =
     (if annotation = Some A_abstract_text then
        (let (text, p1) = pop_textbuf (stop_populating_textbuf p)
         in p1\<lparr>p_abstract := text, p_abstract_registered := False\<rparr>)
      else if annotation = Some A_abstract then set_handlers_to p S_result
      else p)"

definition sitelink_table_start :: "GoogleParser \<Rightarrow> string \<Rightarrow> attrs \<Rightarrow> error + (annotation option \<times> GoogleParser)" where
  "sitelink_table_start p tag attrs =
     (if tag = ''td'' then
        Inr (Some A_sitelink,
             set_handlers_to (p\<lparr>p_current_sitelink := Sitelink '''' '''' ''''\<rparr>) S_sitelink)
      else Inr (None, p))"

definition sitelink_table_end :: "GoogleParser \<Rightarrow> annotation option \<Rightarrow> GoogleParser" where
  "sitelink_table_end p annotation =
     (if annotation = Some A_sitelink_table then set_handlers_to p S_result else p)"

definition sitelink_start :: "GoogleParser \<Rightarrow> string \<Rightarrow> attrs \<Rightarrow> error + (annotation option \<times> GoogleParser)" where
  "sitelink_start p tag attrs =
     (case tag_with_class tag attrs ''h3'' ''r'' of
        Inl e \<Rightarrow> Inl e
      | Inr is_title \<Rightarrow>
          if is_title then Inr (Some A_sitelink_title, set_handlers_to p S_sitelink_title)
          else
            (case tag_with_class tag attrs ''div'' ''st'' of
               Inl e \<Rightarrow> Inl e
             | Inr is_abstract \<Rightarrow>
                 if is_abstract then Inr (Some A_sitelink_abstract, start_populating_textbuf p None)
                 else Inr (None, p)))"

definition sitelink_end :: "GoogleParser \<Rightarrow> annotation option \<Rightarrow> GoogleParser" where
  "sitelink_end p annotation =
     (if annotation = Some A_sitelink_abstract then
        (let (text, p1) = pop_textbuf (stop_populating_textbuf p)
         in p1\<lparr>p_current_sitelink := (p_current_sitelink p1)\<lparr>sl_abstract := text\<rparr>\<rparr>)
      else if annotation = Some A_sitelink then
        set_handlers_to
          (if sl_url (p_current_sitelink p) \<noteq> ''''
           then p\<lparr>p_sitelinks := p_sitelinks p @ [p_current_sitelink p]\<rparr>
           else p)
          S_sitelink_table
      else p)"

definition sitelink_title_start :: "GoogleParser \<Rightarrow> string \<Rightarrow> attrs \<Rightarrow> error + (annotation option \<times> GoogleParser)" where
  "sitelink_title_start p tag attrs =
     (if tag = ''a'' then
        (case attrs_get attrs ''href'' of
           None \<Rightarrow> Inr (None, p)
         | Some None \<Rightarrow> Inl AttributeError
         | Some (Some href) \<Rightarrow>
             Inr (Some A_sitelink_title_link,
                  start_populating_textbuf
                    (p\<lparr>p_current_sitelink := (p_current_sitelink p)\<lparr>sl_url := unwrap_url href\<rparr>\<rparr>)
                    None))
      else Inr (None, p))"

definition sitelink_title_end :: "GoogleParser \<Rightarrow> annotation option \<Rightarrow> GoogleParser" where
  "sitelink_title_end p annotation =
     (if annotation = Some A_sitelink_title_link then
        (let (text, p1) = pop_textbuf (stop_populating_textbuf p)
         in p1\<lparr>p_current_sitelink := (p_current_sitelink p1)\<lparr>sl_title := text\<rparr>\<rparr>)
      else if annotation = Some A_sitelink_title then set_handlers_to p S_sitelink
      else p)"

text \<open>\<open>ignore_start\<close> does nothing; \<open>ignore_end\<close> restores the scope named in the annotation.\<close>

definition ignore_end :: "GoogleParser \<Rightarrow> annotation option \<Rightarrow> GoogleParser" where
  "ignore_end p annotation =
     (case annotation of
        Some (A_ignored context) \<Rightarrow> set_handlers_to p context
      | _ \<Rightarrow> p)"

subsection \<open>The decorators and \<open>feed\<close>\<close>

text \<open>The start handler of the current scope, as \<open>annotate_tag\<close> calls it.\<close>

definition scope_start :: "bool \<Rightarrow> GoogleParser \<Rightarrow> string \<Rightarrow> attrs \<Rightarrow> error + (annotation option \<times> GoogleParser)" where
  "scope_start ua p tag attrs =
     (case p_scope p of
        S_root \<Rightarrow> root_start p tag attrs
      | S_result \<Rightarrow> result_start ua p tag attrs
      | S_title \<Rightarrow> title_start ua p tag attrs
      | S_abstract \<Rightarrow> abstract_start p tag attrs
      | S_sitelink_table \<Rightarrow> sitelink_table_start p tag attrs
      | S_sitelink \<Rightarrow> sitelink_start p tag attrs
      | S_sitelink_title \<Rightarrow> sitelink_title_start p tag attrs
      | S_ignore \<Rightarrow> Inr (None, p))"

text \<open>
  \<open>annotate_tag\<close>: in the scope \<open>ignore\<close> the tag is annotated \<open>None\<close>; otherwise
  the tag is compared against the ignore list, and either annotated
  \<open>context + '_ignored'\<close> with the handlers set to \<open>ignore\<close>, or handed to the scope's
  start handler and annotated with what that returns.
\<close>

definition handle_starttag :: "bool \<Rightarrow> GoogleParser \<Rightarrow> string \<Rightarrow> attrs \<Rightarrow> error + GoogleParser" where
  "handle_starttag ua p tag attrs =
     (if p_scope p = S_ignore then Inr (insert_annotation p tag None)
      else
        (case ignored_by IGNORE_LIST tag attrs of
           Inl e \<Rightarrow> Inl e
         | Inr ignored \<Rightarrow>
             if ignored then
               Inr (set_handlers_to (insert_annotation p tag (Some (A_ignored (p_scope p)))) S_ignore)
             else
               (case scope_start ua p tag attrs of
                  Inl e \<Rightarrow> Inl e
                | Inr (annotation, p1) \<Rightarrow> Inr (insert_annotation p1 tag annotation))))"

definition scope_end :: "GoogleParser \<Rightarrow> annotation option \<Rightarrow> error + GoogleParser" where
  "scope_end p annotation =
     (case p_scope p of
        S_root \<Rightarrow> Inr (root_end p annotation)
      | S_result \<Rightarrow> result_end p annotation
      | S_title \<Rightarrow> Inr (title_end p annotation)
      | S_abstract \<Rightarrow> Inr (abstract_end p annotation)
      | S_sitelink_table \<Rightarrow> Inr (sitelink_table_end p annotation)
      | S_sitelink \<Rightarrow> Inr (sitelink_end p annotation)
      | S_sitelink_title \<Rightarrow> Inr (sitelink_title_end p annotation)
      | S_ignore \<Rightarrow> Inr (ignore_end p annotation))"

text \<open>\<open>retrieve_tag_annotation\<close>: pop the annotation, then the scope's end handler.\<close>

definition handle_endtag :: "GoogleParser \<Rightarrow> string \<Rightarrow> error + GoogleParser" where
  "handle_endtag p tag =
     (case pop_annotation p tag of
        Inl e \<Rightarrow> Inl e
      | Inr (annotation, p1) \<Rightarrow> scope_end p1 annotation)"

fun handle_event :: "bool \<Rightarrow> GoogleParser \<Rightarrow> event \<Rightarrow> error + GoogleParser" where
  "handle_event ua p (StartTag tag attrs) = handle_starttag ua p tag attrs"
| "handle_event ua p (EndTag tag) = handle_endtag p tag"
| "handle_event ua p (Data data) = Inr (handle_data p data)"

text \<open>
  \<open>feed\<close>: the handlers run in document order; an exception raised by one of them
  leaves \<open>feed\<close> and reaches the caller.
\<close>

fun feed :: "bool \<Rightarrow> GoogleParser \<Rightarrow> event list \<Rightarrow> error + GoogleParser" where
  "feed ua p [] = Inr p"
| "feed ua p (e # es) =
     (case handle_event ua p e of
        Inl err \<Rightarrow> Inl err
      | Inr p1 \<Rightarrow> feed ua p1 es)"

text \<open>What \<open>GooglerCmd.fetch\<close> does with a page: a fresh parser, \<open>feed\<close>, then \<open>parser.results\<close>.\<close>

definition parse_results :: "bool \<Rightarrow> bool \<Rightarrow> event list \<Rightarrow> error + result list" where
  "parse_results ua news events =
     (case feed ua (GoogleParser_init news) events of
        Inl e \<Rightarrow> Inl e
      | Inr p \<Rightarrow> Inr (p_results p))"

subsection \<open>Documents\<close>

text \<open>
  The minimal document of the end-to-end scenario,
  \<open><div class="g"><h3 class="r"><a href="/url?q=http%3A%2F%2Fexample.com%2Fx&sa=U">Example</a></h3>
  <div class="s"><span class="st">An example site.</span></div></div>\<close> (on one line), as
  the tokenizer delivers it.
\<close>

definition minimal_document :: "event list" where
  "minimal_document =
     [StartTag ''div'' [(''class'', Some ''g'')],
      StartTag ''h3'' [(''class'', Some ''r'')],
      StartTag ''a'' [(''href'', Some ''/url?q=http%3A%2F%2Fexample.com%2Fx&sa=U'')],
      Data ''Example'',
      EndTag ''a'',
      EndTag ''h3'',
      StartTag ''div'' [(''class'', Some ''s'')],
      StartTag ''span'' [(''class'', Some ''st'')],
      Data ''An example site.'',
      EndTag ''span'',
      EndTag ''div'',
      EndTag ''div'']"

text \<open>
  The same result container with an ignore-listed container
  \<open><div class="g-blk"><b>People also ask</b></div>\<close> inside the abstract text.
\<close>

definition ignored_subtree :: "event list" where
  "ignored_subtree =
     [StartTag ''div'' [(''class'', Some ''g-blk'')],
      StartTag ''b'' [],
      Data ''People also ask'',
      EndTag ''b'',
      EndTag ''div'']"

definition document_with_ignored :: "event list" where
  "document_with_ignored = take 9 minimal_document @ ignored_subtree @ drop 9 minimal_document"

text \<open>The result the scenario expects.\<close>

definition example_result :: result where
  "example_result = \<lparr>r_index = ''1'', r_title = ''Example'', r_url = ''http://example.com/x'',
     r_abstract = ''An example site.'', r_metadata = None, r_sitelinks = [],
     r_urltable = [(''1'', ''http://example.com/x'')]\<rparr>"



text \<open>Two sitelinks, as the parser appends them.\<close>

definition two_sitelinks :: "sitelink list" where
  "two_sitelinks = [Sitelink ''Docs'' ''http://example.com/docs'' ''Documentation'',
                    Sitelink ''Blog'' ''http://example.com/blog'' ''News'']"

subsection \<open>Well-nested markup and parsers that differ in their annotation lists only\<close>

text \<open>
  A well-nested run of events: data, and elements whose end tag closes their start
  tag.  Two annotation dicts hold the same stacks when every tag has the same list in
  both (a missing key counting as the empty list) and the second has every key of the
  first.
\<close>

inductive balanced :: "event list \<Rightarrow> bool" where
  b_empty: "balanced []"
| b_data: "balanced es \<Longrightarrow> balanced (Data d # es)"
| b_element: "balanced inner \<Longrightarrow> balanced rest \<Longrightarrow>
     balanced (StartTag tag attrs # inner @ EndTag tag # rest)"

definition stack_of :: "(string \<Rightarrow> annotation option list option) \<Rightarrow> string \<Rightarrow> annotation option list" where
  "stack_of ta tag = (case ta tag of None \<Rightarrow> [] | Some st \<Rightarrow> st)"

definition same_stacks ::
  "(string \<Rightarrow> annotation option list option) \<Rightarrow> (string \<Rightarrow> annotation option list option) \<Rightarrow> bool" where
  "same_stacks ta ta' \<longleftrightarrow>
     (\<forall>tag. stack_of ta' tag = stack_of ta tag) \<and> (\<forall>tag. ta tag \<noteq> None \<longrightarrow> ta' tag \<noteq> None)"

definition same_but_annotations :: "GoogleParser \<Rightarrow> GoogleParser \<Rightarrow> bool" where
  "same_but_annotations p q \<longleftrightarrow>
     (\<exists>ta. q = p\<lparr>p_tag_annotations := ta\<rparr> \<and> same_stacks (p_tag_annotations p) ta)"

section \<open>Properties of the query string\<close>


lemma split_on_not_Nil: "split_on c s \<noteq> []"
  by (induction s) (auto split: list.splits)

lemma split_on_no_sep: "c \<notin> set x \<Longrightarrow> split_on c x = [x]"
  by (induction x) auto

lemma split_on_append_sep: "c \<notin> set x \<Longrightarrow> split_on c (x @ c # rest) = x # split_on c rest"
  by (induction x) (auto split: list.splits)

lemma split_on_py_join:
  "xs \<noteq> [] \<Longrightarrow> \<forall>x \<in> set xs. c \<notin> set x \<Longrightarrow> split_on c (py_join [c] xs) = xs"
proof (induction "[c]" xs rule: py_join.induct)
  case 1
  then show ?case by simp
next
  case (2 x)
  then show ?case by (simp add: split_on_no_sep)
next
  case (3 x y ys)
  then show ?case by (simp add: split_on_append_sep)
qed

lemma param_of_item: "CHR ''='' \<notin> set k \<Longrightarrow> param_of (k @ ''='' @ v) = (k, v)"
  by (induction k) (auto simp: param_of_def)

lemma keys_dict_set:
  "map fst (dict_set k v d) = (if k \<in> fst ` set d then map fst d else map fst d @ [k])"
  by (induction d) force+

lemma distinct_dict_set: "distinct (map fst d) \<Longrightarrow> distinct (map fst (dict_set k v d))"
  by (simp add: keys_dict_set del: map_map)

lemma keys_dict_pop: "map fst (dict_pop k d) = remove1 k (map fst d)"
  by (induction d) auto

lemma distinct_dict_pop: "distinct (map fst d) \<Longrightarrow> distinct (map fst (dict_pop k d))"
  by (simp add: keys_dict_pop)

lemma set_dict_set: "set (dict_set k v d) \<subseteq> insert (k, v) (set d)"
  by (induction d) (auto split: if_splits)

lemma dict_set_mem: "(k, v) \<in> set (dict_set k v d)"
  by (induction d) auto

lemma distinct_update_qd: "distinct (map fst d) \<Longrightarrow> distinct (map fst (update_qd os d))"
  by (simp add: update_qd_def Let_def distinct_dict_set distinct_dict_pop split: option.splits)

lemma distinct_set_queries_qd:
  "distinct (map fst d) \<Longrightarrow> distinct (map fst (set_queries_qd kwargs d))"
  by (induction kwargs d rule: set_queries_qd.induct) (simp_all add: distinct_dict_set)

lemma distinct_unset_queries_qd:
  "distinct (map fst d) \<Longrightarrow> distinct (map fst (unset_queries_qd args d))"
  by (induction args d rule: unset_queries_qd.induct) (simp_all add: distinct_dict_pop)

lemma reachable_distinct: "reachable u \<Longrightarrow> distinct (map fst (u_query_dict u))"
proof (induction rule: reachable.induct)
  case (r_init os)
  then show ?case by (simp add: GoogleUrl_init_def update_def distinct_update_qd)
next
  case (r_update u os)
  then show ?case by (simp add: update_def distinct_update_qd)
next
  case (r_set_queries u kwargs)
  then show ?case by (simp add: set_queries_def distinct_set_queries_qd)
next
  case (r_unset_queries u args)
  then show ?case by (simp add: unset_queries_def distinct_unset_queries_qd)
next
  case (r_set_keywords u k)
  then show ?case by (simp add: set_keywords_def)
next
  case (r_next_page u)
  then show ?case by (simp add: next_page_def)
next
  case (r_prev_page u u')
  then show ?case by (auto simp: prev_page_def split: if_splits)
next
  case (r_first_page u u')
  then show ?case by (auto simp: first_page_def split: if_splits)
qed


lemma digit_char_digit: "d < 10 \<Longrightarrow> digit_char d \<in> set ''0123456789''"
proof -
  assume "d < 10"
  then have "d < length ''0123456789''" by simp
  then show ?thesis unfolding digit_char_def by (rule nth_mem)
qed

lemma str_nat_digits: "set (str_nat n) \<subseteq> set ''0123456789''"
proof (induction n rule: str_nat.induct)
  case (1 n)
  show ?case
  proof (cases "n < 10")
    case True
    then show ?thesis using digit_char_digit [of n] by (subst str_nat.simps) simp
  next
    case False
    have "n mod 10 < 10" by simp
    then have "digit_char (n mod 10) \<in> set ''0123456789''" by (rule digit_char_digit)
    with False 1 show ?thesis by (subst str_nat.simps) simp
  qed
qed

lemma str_int_no_amp: "CHR ''&'' \<notin> set (str_int i)"
  using str_nat_digits [of "nat i"] str_nat_digits [of "nat (- i)"]
  by (auto simp: str_int_def)

lemma hex_digit_no_amp: "d < 16 \<Longrightarrow> hex_digit d \<noteq> CHR ''&''"
proof -
  assume "d < 16"
  then have "d < length ''0123456789ABCDEF''" by simp
  then have "hex_digit d \<in> set ''0123456789ABCDEF''" unfolding hex_digit_def by (rule nth_mem)
  then show ?thesis by auto
qed

lemma of_char_div_16: "of_char c div 16 < (16::nat)"
proof -
  have "of_char c mod 256 = (of_char c :: nat)" by (rule of_char_mod_256)
  then have "(of_char c :: nat) < 256"
    by (metis mod_less_divisor zero_less_numeral)
  then show ?thesis by arith
qed

lemma not_safe_amp: "\<not> always_safe CHR ''&''"
  by (simp add: always_safe_def)

lemma quote_char_no_amp: "CHR ''&'' \<notin> set (quote_char c)"
proof (cases "always_safe c")
  case True
  then have "c \<noteq> CHR ''&''" using not_safe_amp by auto
  with True show ?thesis by (simp add: quote_char_def)
next
  case False
  have "of_char c mod 16 < (16::nat)" by simp
  then have "hex_digit (of_char c mod 16) \<noteq> CHR ''&''" by (rule hex_digit_no_amp)
  moreover have "hex_digit (of_char c div 16) \<noteq> CHR ''&''"
    using of_char_div_16 by (rule hex_digit_no_amp)
  ultimately show ?thesis using False by (simp add: quote_char_def)
qed

lemma quote_plus_no_amp: "CHR ''&'' \<notin> set (quote_plus s)"
  by (simp add: quote_plus_def quote_char_no_amp)

lemma set_py_join: "set (py_join sep xs) \<subseteq> set sep \<union> \<Union> (set ` set xs)"
  by (induction sep xs rule: py_join.induct) auto

lemma q_value_no_amp: "CHR ''&'' \<notin> set (q_value u)"
proof -
  have "CHR ''&'' \<notin> set (py_join ''+'' (map quote_plus kws))" for kws
    using set_py_join [of "''+''" "map quote_plus kws"] quote_plus_no_amp by auto
  then show ?thesis
    by (auto simp: q_value_def quote_plus_no_amp split: keywords_val.splits option.splits)
qed


lemma count_list_distinct: "distinct xs \<Longrightarrow> x \<in> set xs \<Longrightarrow> count_list xs x = 1"
  by (induction xs) (auto simp: count_list_0_iff)

lemma distinct_query_qd:
  "distinct (map fst (u_query_dict u)) \<Longrightarrow> distinct (map fst (query_qd u))"
  unfolding query_qd_def by (intro distinct_dict_set)

lemma keyset_dict_set: "fst ` set (dict_set k v d) = insert k (fst ` set d)"
proof -
  have "set (map fst (dict_set k v d)) = insert k (set (map fst d))"
    unfolding keys_dict_set by auto
  then show ?thesis by simp
qed

lemma keys_query_qd:
  "fst ` set (query_qd u) = {''q'', ''start'', ''num''} \<union> fst ` set (u_query_dict u)"
  unfolding query_qd_def by (simp add: keyset_dict_set)

lemma set_query_qd:
  "set (query_qd u) \<subseteq>
     {(''q'', PyStr (q_value u)), (''start'', PyInt (u_start u)), (''num'', PyInt (u_num u))}
     \<union> set (u_query_dict u)"
  unfolding query_qd_def
  using set_dict_set [of "''q''" "PyStr (q_value u)"
          "dict_set ''start'' (PyInt (u_start u)) (dict_set ''num'' (PyInt (u_num u)) (u_query_dict u))"]
        set_dict_set [of "''start''" "PyInt (u_start u)" "dict_set ''num'' (PyInt (u_num u)) (u_query_dict u)"]
        set_dict_set [of "''num''" "PyInt (u_num u)" "u_query_dict u"]
  by blast

lemma map_of_dict_set_same: "map_of (dict_set k v d) k = Some v"
  by (induction d) auto

lemma map_of_dict_set_other: "k' \<noteq> k \<Longrightarrow> map_of (dict_set k v d) k' = map_of d k'"
  by (induction d) auto

lemma map_of_query_qd:
  "map_of (query_qd u) ''q'' = Some (PyStr (q_value u))"
  "map_of (query_qd u) ''start'' = Some (PyInt (u_start u))"
  "map_of (query_qd u) ''num'' = Some (PyInt (u_num u))"
  by (simp_all add: query_qd_def map_of_dict_set_same map_of_dict_set_other)

lemma plain_query_qd:
  assumes "\<forall>kv \<in> set (u_query_dict u). plain_item kv"
  shows "\<forall>kv \<in> set (query_qd u). plain_item kv"
proof
  fix kv assume "kv \<in> set (query_qd u)"
  then consider "kv = (''q'', PyStr (q_value u))" | "kv = (''start'', PyInt (u_start u))"
    | "kv = (''num'', PyInt (u_num u))" | "kv \<in> set (u_query_dict u)"
    using set_query_qd [of u] by blast
  then show "plain_item kv"
  proof cases
    case 1
    then show ?thesis by (simp add: plain_item_def str_pyval_def q_value_no_amp)
  next
    case 2
    then show ?thesis by (simp add: plain_item_def str_pyval_def str_int_no_amp)
  next
    case 3
    then show ?thesis by (simp add: plain_item_def str_pyval_def str_int_no_amp)
  next
    case 4
    then show ?thesis using assms by blast
  qed
qed

lemma format_item_plain:
  assumes "distinct (map fst qd)" and "\<forall>kv \<in> set qd. plain_item kv" and "k \<in> fst ` set qd"
  shows "CHR ''&'' \<notin> set (format_item qd k)"
    and "param_of (format_item qd k) = (k, str_pyval (the (map_of qd k)))"
proof -
  from assms(3) obtain v where kv: "(k, v) \<in> set qd" by auto
  with assms(1) have m: "map_of qd k = Some v" by simp
  from kv assms(2) have p: "plain_item (k, v)" by blast
  from m p show "CHR ''&'' \<notin> set (format_item qd k)"
    by (simp add: format_item_def plain_item_def)
  from m p show "param_of (format_item qd k) = (k, str_pyval (the (map_of qd k)))"
    using param_of_item [of k "str_pyval v"] by (simp add: format_item_def plain_item_def)
qed

lemma query_params_query:
  assumes "distinct (map fst (u_query_dict u))"
    and "\<forall>kv \<in> set (u_query_dict u). plain_item kv"
  shows "query_params (query u) =
           map (\<lambda>k. (k, str_pyval (the (map_of (query_qd u) k)))) (sort (map fst (query_qd u)))"
proof -
  let ?qd = "query_qd u"
  let ?ks = "sort (map fst ?qd)"
  have d: "distinct (map fst ?qd)" using assms(1) by (rule distinct_query_qd)
  have p: "\<forall>kv \<in> set ?qd. plain_item kv" using assms(2) by (rule plain_query_qd)
  have ks: "set ?ks = fst ` set ?qd" by simp
  have "''q'' \<in> set ?ks" unfolding ks keys_query_qd by simp
  then have "?ks \<noteq> []" by (metis empty_iff empty_set)
  then have ne: "map (format_item ?qd) ?ks \<noteq> []" by simp
  have "\<forall>x \<in> set (map (format_item ?qd) ?ks). CHR ''&'' \<notin> set x"
    using format_item_plain(1) [OF d p] ks by auto
  with ne have "split_on CHR ''&'' (py_join ''&'' (map (format_item ?qd) ?ks))
                  = map (format_item ?qd) ?ks"
    by (rule split_on_py_join)
  then have "query_params (query u) = map (\<lambda>k. param_of (format_item ?qd k)) ?ks"
    by (simp add: query_params_def query_def Let_def)
  also have "\<dots> = map (\<lambda>k. (k, str_pyval (the (map_of ?qd k)))) ?ks"
    using format_item_plain(2) [OF d p] ks by (intro map_cong) auto
  finally show ?thesis .
qed

text \<open>
  Claim C7, amended: in every reachable state whose \<open>_query_dict\<close> entries are plain
  (no \<open>&\<close> or \<open>=\<close> in a key, no \<open>&\<close> in a printed value), the rendered query string,
  read back as \<open>&\<close>-separated \<open>key=value\<close> parameters, has its keys in strictly
  ascending lexicographic order, holds \<open>q\<close>, \<open>num\<close> and \<open>start\<close> exactly once each,
  and their values are the \<open>q\<close> synthesized from keywords and site, \<open>str(num)\<close> and
  \<open>str(start)\<close>.
\<close>

theorem query_q_num_start_once_sorted:
  assumes "reachable u" and "\<forall>kv \<in> set (u_query_dict u). plain_item kv"
  shows "sorted (map fst (query_params (query u))) \<and>
         distinct (map fst (query_params (query u))) \<and>
         count_list (map fst (query_params (query u))) ''q'' = 1 \<and>
         count_list (map fst (query_params (query u))) ''num'' = 1 \<and>
         count_list (map fst (query_params (query u))) ''start'' = 1 \<and>
         map_of (query_params (query u)) ''q'' = Some (q_value u) \<and>
         map_of (query_params (query u)) ''num'' = Some (str_int (u_num u)) \<and>
         map_of (query_params (query u)) ''start'' = Some (str_int (u_start u))"
proof -
  let ?qd = "query_qd u"
  let ?ks = "sort (map fst ?qd)"
  let ?ps = "query_params (query u)"
  have d0: "distinct (map fst (u_query_dict u))" using assms(1) by (rule reachable_distinct)
  have ps: "?ps = map (\<lambda>k. (k, str_pyval (the (map_of ?qd k)))) ?ks"
    using d0 assms(2) by (rule query_params_query)
  have keys: "map fst ?ps = ?ks" by (simp add: ps comp_def)
  have d: "distinct ?ks" using distinct_query_qd [OF d0] by simp
  have "set ?ks = fst ` set ?qd" by simp
  then have mem: "''q'' \<in> set ?ks" "''num'' \<in> set ?ks" "''start'' \<in> set ?ks"
    unfolding keys_query_qd by simp_all
  have look: "map_of ?ps k = Some (str_pyval (the (map_of ?qd k)))" if "k \<in> set ?ks" for k
    using that unfolding ps by (simp add: map_of_map_restrict del: set_sort)
  show ?thesis
    unfolding keys
    using d mem look [OF mem(1)] look [OF mem(2)] look [OF mem(3)]
    by (simp add: count_list_distinct map_of_query_qd str_pyval_def del: set_sort set_map)
qed


text \<open>
  Claim C7, as written, covers every reachable state.  Values are written into the
  query string as they are, so after \<open>update\<close> with \<open>lang = 'en&q=y'\<close> the string
  holds the parameter \<open>q\<close> twice and its keys are not in sorted order.
\<close>

theorem query_q_twice_counterexample:
  "reachable lang_url \<and>
   query lang_url = ''hl=en&q=y&ie=UTF-8&num=10&oe=UTF-8&q=x&start=0'' \<and>
   count_list (map fst (query_params (query lang_url))) ''q'' = 2 \<and>
   \<not> sorted (map fst (query_params (query lang_url)))"
proof -
  have "reachable lang_url" unfolding lang_url_def by (rule r_init)
  moreover have q: "query lang_url = ''hl=en&q=y&ie=UTF-8&num=10&oe=UTF-8&q=x&start=0''"
    by code_simp
  moreover have "count_list (map fst (query_params (query lang_url))) ''q'' = 2"
    unfolding q by code_simp
  moreover have "\<not> sorted (map fst (query_params (query lang_url)))"
    unfolding q by code_simp
  ultimately show ?thesis by simp
qed

theorem query_q_num_start_once_sorted_witness:
  "reachable example_url \<and> list_all plain_item (u_query_dict example_url) \<and>
   query example_url = ''ie=UTF-8&num=10&oe=UTF-8&q=hello+world+a%26b&start=5'' \<and>
   map fst (query_params (query example_url)) = [''ie'', ''num'', ''oe'', ''q'', ''start''] \<and>
   map_of (query_params (query example_url)) ''q'' = Some ''hello+world+a%26b''"
proof -
  have r: "reachable example_url"
    unfolding example_url_def by (intro r_update r_init)
  have p: "list_all plain_item (u_query_dict example_url)"
    by code_simp
  then have p': "\<forall>kv \<in> set (u_query_dict example_url). plain_item kv"
    by (simp add: list_all_iff)
  have q: "query example_url = ''ie=UTF-8&num=10&oe=UTF-8&q=hello+world+a%26b&start=5''"
    by code_simp
  have k: "map fst (query_params (query example_url)) = [''ie'', ''num'', ''oe'', ''q'', ''start'']"
    unfolding q by code_simp
  have v: "q_value example_url = ''hello+world+a%26b''"
    by code_simp
  from query_q_num_start_once_sorted [OF r p'] r p q k v show ?thesis by simp
qed


section \<open>Pagination round trip\<close>

text \<open>
  Claim C8, as written, says that \<open>next_page\<close> followed by \<open>prev_page\<close> yields
  \<open>start = 0\<close> whenever the original \<open>start\<close> is below the page size.  At
  \<open>start = 5\<close>, \<open>num = 10\<close> the code goes to 15 and back to 5, not to 0.
\<close>

theorem next_prev_page_counterexample:
  "u_start example_url = 5 \<and> u_num example_url = 10 \<and>
   prev_page (next_page example_url) = Inr example_url \<and>
   prev_page (next_page example_url) \<noteq> Inr (example_url\<lparr>u_start := 0\<rparr>)"
  by (simp add: prev_page_def next_page_def example_url_def update_def GoogleUrl_init_def no_opts_def)

text \<open>
  Claim C8, amended: for any keywords, any non-negative \<open>start\<close> and any page size
  \<open>num\<close> with \<open>start + num \<noteq> 0\<close> (every positive page size), \<open>next_page\<close> followed
  by \<open>prev_page\<close> succeeds and restores the whole query state, the original \<open>start\<close>
  included; the clamp to 0 is only reached from \<open>start = 0\<close>, where 0 is the
  original offset.
\<close>

theorem next_prev_page_restores:
  assumes "0 \<le> u_start u" and "u_start u + u_num u \<noteq> 0"
  shows "prev_page (next_page u) = Inr u"
proof -
  have "u_start u + u_num u > u_num u \<or> u_start u = 0"
    using assms(1) by arith
  then show ?thesis
    using assms(2) by (auto simp: prev_page_def next_page_def)
qed

theorem next_prev_page_restores_witness:
  "0 \<le> u_start example_url \<and> u_start example_url + u_num example_url \<noteq> 0 \<and>
   prev_page (next_page example_url) = Inr example_url"
  using next_prev_page_restores [of example_url]
  by (simp add: example_url_def update_def GoogleUrl_init_def no_opts_def)

section \<open>Properties of the fetch layer\<close>

subsection \<open>Reconnect and retry\<close>

lemma requests_raw_get: "requests (snd (raw_get net c url)) = Suc (requests c)"
  by (simp add: raw_get_def requests_def Let_def split: get_outcome.splits option.splits)

lemma connects_raw_get: "connects (snd (raw_get net c url)) = connects c"
  by (simp add: raw_get_def connects_def Let_def split: get_outcome.splits option.splits)

lemma requests_new_connection: "requests (snd (new_connection net c host port)) = requests c"
  by (simp add: new_connection_def requests_def Let_def split: option.splits)

lemma connects_new_connection: "connects (snd (new_connection net c host port)) = Suc (connects c)"
  by (simp add: new_connection_def connects_def Let_def split: option.splits)

text \<open>
  The \<open>try\<close> block never issues more than two GETs nor more than one reconnection,
  whatever the network does.
\<close>

lemma get_with_retry_bounded:
  "requests (snd (get_with_retry net c url)) \<le> requests c + 2 \<and>
   connects (snd (get_with_retry net c url)) \<le> connects c + 1"
proof -
  obtain r1 c1 where g1: "raw_get net c url = (r1, c1)" by (cases "raw_get net c url")
  obtain r2 c2 where n: "renew_connection net c1 = (r2, c2)" by (cases "renew_connection net c1")
  obtain r3 c3 where g2: "raw_get net c2 url = (r3, c3)" by (cases "raw_get net c2 url")
  have 1: "requests c1 = Suc (requests c)" "connects c1 = connects c"
    using requests_raw_get [of net c url] connects_raw_get [of net c url] g1 by simp_all
  have 2: "requests c2 = requests c1" "connects c2 = Suc (connects c1)"
    using requests_new_connection [of net c1 None None] connects_new_connection [of net c1 None None] n
    by (simp_all add: renew_connection_def)
  have 3: "requests c3 = Suc (requests c2)" "connects c3 = connects c2"
    using requests_raw_get [of net c2 url] connects_raw_get [of net c2 url] g2 by simp_all
  show ?thesis
    using 1 2 3 by (auto simp: get_with_retry_def g1 n g2 split: sum.splits)
qed

text \<open>
  When the first GET fails and the reconnection succeeds, there is exactly one
  reconnection and exactly one retry; a retry that raises \<open>HTTPException\<close> becomes a
  \<open>GoogleConnectionError\<close>.
\<close>

lemma get_with_retry_HTTPException:
  assumes "\<forall>r. get_outcomes net (requests c) \<noteq> Response r"
    and "connect_outcomes net (connects c) = None"
    and "get_outcomes net (Suc (requests c)) = RaiseHTTPException"
  shows "fst (get_with_retry net c url) = Inl (failed_to_get url) \<and>
         requests (snd (get_with_retry net c url)) = requests c + 2 \<and>
         connects (snd (get_with_retry net c url)) = connects c + 1"
proof -
  obtain r1 c1 where g1: "raw_get net c url = (r1, c1)" by (cases "raw_get net c url")
  have e1: "r1 = Inl HTTPException \<or> r1 = Inl OSError"
    using g1 assms(1) by (cases "get_outcomes net (requests c)") (auto simp: raw_get_def Let_def)
  have q1: "requests c1 = Suc (requests c)" "connects c1 = connects c"
    using requests_raw_get [of net c url] connects_raw_get [of net c url] g1 by simp_all
  obtain r2 c2 where n: "renew_connection net c1 = (r2, c2)" by (cases "renew_connection net c1")
  have "connects (case None of None \<Rightarrow> (if c_conn c1 then c1\<lparr>c_trace := c_trace c1 @ [Close]\<rparr> else c1)) = connects c1"
    by (simp add: connects_def)
  then have r2: "r2 = Inr ()"
    using n assms(2) q1(2) by (simp add: renew_connection_def new_connection_def Let_def connects_def)
  have q2: "requests c2 = requests c1" "connects c2 = Suc (connects c1)"
    using requests_new_connection [of net c1 None None] connects_new_connection [of net c1 None None] n
    by (simp_all add: renew_connection_def)
  obtain r3 c3 where g2: "raw_get net c2 url = (r3, c3)" by (cases "raw_get net c2 url")
  have r3: "r3 = Inl HTTPException"
    using g2 assms(3) q1 q2 by (simp add: raw_get_def Let_def)
  have q3: "requests c3 = Suc (requests c2)" "connects c3 = connects c2"
    using requests_raw_get [of net c2 url] connects_raw_get [of net c2 url] g2 by simp_all
  show ?thesis
    using e1 r2 r3 q1 q2 q3 by (auto simp: get_with_retry_def g1 n g2)
qed

text \<open>
  Claim C2 at a concrete input: the first GET raises \<open>OSError\<close> (a reset connection),
  the reconnection succeeds, the retry raises \<open>OSError\<close> again (a timeout).  The
  client has closed, reconnected and retried once; the second \<open>OSError\<close> reaches the
  caller as it is, not as \<open>GoogleConnectionError\<close>.
\<close>

theorem fetch_page_retry_OSError_escapes:
  "fetch_page (script [RaiseOSError, RaiseOSError]) conn0 ''/search?q=x'' =
     (Inl OSError,
      conn0\<lparr>c_trace := [Connect ''www.google.com'', Request ''/search?q=x'' '''', Close,
                          Connect ''www.google.com'', Request ''/search?q=x'' '''']\<rparr>) \<and>
   class_of OSError \<noteq> GoogleConnectionError_class"
  by (simp add: fetch_page_def get_with_retry_def raw_get_def renew_connection_def
      new_connection_def script_def conn0_def requests_def connects_def Let_def)

subsection \<open>Blocked redirects\<close>




subsection \<open>The stored cookie\<close>

lemma find_sub_char_None: "c \<notin> set p \<Longrightarrow> find_sub [c] p = None"
  by (induction p) auto

lemma find_sub_char_hit: "c \<notin> set p \<Longrightarrow> find_sub [c] (p @ c # rest) = Some (length p)"
  by (induction p) auto

text \<open>
  A \<open>Set-Cookie\<close> value with a semicolon is cut before its first semicolon, as the
  spec says, when no cookie is stored yet.
\<close>

lemma raw_get_stores_cookie_prefix:
  assumes "c_cookie c = ''''"
    and "get_outcomes net (requests c) = Response r"
    and "set_cookie r = Some (p @ '';'' @ rest)"
    and "CHR '';'' \<notin> set p"
  shows "c_cookie (snd (raw_get net c url)) = p"
proof -
  have "find_sub '';'' (p @ CHR '';'' # rest) = Some (length p)"
    using assms(4) by (rule find_sub_char_hit)
  then show ?thesis
    using assms(1-3) by (simp add: raw_get_def Let_def py_find_def py_slice_to_def)
qed

text \<open>Once a non-empty cookie is stored, no later response replaces it.\<close>

lemma raw_get_keeps_cookie:
  "c_cookie c \<noteq> '''' \<Longrightarrow> c_cookie (snd (raw_get net c url)) = c_cookie c"
  by (simp add: raw_get_def Let_def split: get_outcome.splits)

text \<open>
  Claim C9 at a concrete input: the first response carries \<open>Set-Cookie: NID=abc\<close>,
  a value without a semicolon.  \<open>find\<close> answers \<open>-1\<close>, the slice drops the last
  character, and the next request is sent with \<open>Cookie: NID=ab\<close>.
\<close>

theorem raw_get_cookie_without_semicolon:
  "c_cookie (snd (raw_get (script [Response (ok_response\<lparr>set_cookie := Some ''NID=abc''\<rparr>), Response ok_response])
                    conn0 ''/search?q=x'')) = ''NID=ab'' \<and>
   c_trace (snd (raw_get (script [Response (ok_response\<lparr>set_cookie := Some ''NID=abc''\<rparr>), Response ok_response])
      (snd (raw_get (script [Response (ok_response\<lparr>set_cookie := Some ''NID=abc''\<rparr>), Response ok_response])
              conn0 ''/search?q=x'')) ''/search?q=y''))
     = [Connect ''www.google.com'', Request ''/search?q=x'' '''', Request ''/search?q=y'' ''NID=ab'']"
  by (simp add: raw_get_def script_def conn0_def requests_def Let_def ok_response_def
      py_find_def py_slice_to_def)

section \<open>Properties of Result\<close>


lemma dict_set_new: "k \<notin> fst ` set d \<Longrightarrow> dict_set k v d = d @ [(k, v)]"
  by (induction d) auto

lemma utf8_ascii: "n < 128 \<Longrightarrow> utf8 n = [char_of n]"
  by (simp add: utf8_def)

lemma char_of_inj_small:
  "(m::nat) < 256 \<Longrightarrow> (n::nat) < 256 \<Longrightarrow> char_of m = (char_of n :: char) \<Longrightarrow> m = n"
  by (simp add: char_of_eq_iff take_bit_eq_mod)

lemma index_sitelinks_ascii:
  assumes "subindex + length sls \<le> 128"
    and "\<forall>j. subindex \<le> j \<and> j < subindex + length sls \<longrightarrow> index @ utf8 j \<notin> fst ` set tbl"
  shows "index_sitelinks index subindex sls tbl =
           Inr (map (\<lambda>(j, sl). sl\<lparr>sl_index := index @ utf8 j\<rparr>) (enumerate subindex sls),
                tbl @ map (\<lambda>(j, sl). (index @ utf8 j, sl_url sl)) (enumerate subindex sls))"
  using assms
proof (induction sls arbitrary: subindex tbl)
  case Nil
  then show ?case by simp
next
  case (Cons sl sls)
  let ?k = "index @ utf8 subindex"
  let ?t = "tbl @ [(?k, sl_url sl)]"
  have new: "?k \<notin> fst ` set tbl" using Cons.prems(2) by simp
  have set: "dict_set ?k (sl_url sl) tbl = ?t" using new by (rule dict_set_new)
  have chr: "py_chr (Suc subindex) = Inr (utf8 (Suc subindex))"
    using Cons.prems(1) by (simp add: py_chr_def)
  have len: "Suc subindex + length sls \<le> 128" using Cons.prems(1) by simp
  have fresh: "\<forall>j. Suc subindex \<le> j \<and> j < Suc subindex + length sls \<longrightarrow> index @ utf8 j \<notin> fst ` set ?t"
  proof (intro allI impI)
    fix j assume j: "Suc subindex \<le> j \<and> j < Suc subindex + length sls"
    then have "index @ utf8 j \<notin> fst ` set tbl" using Cons.prems(2) by simp
    moreover have "utf8 j \<noteq> utf8 subindex"
    proof
      assume "utf8 j = utf8 subindex"
      then have "char_of j = (char_of subindex :: char)"
        using j len by (simp add: utf8_ascii)
      then have "j = subindex" using j len by (intro char_of_inj_small) simp_all
      with j show False by simp
    qed
    ultimately show "index @ utf8 j \<notin> fst ` set ?t" by simp
  qed
  have IH: "index_sitelinks index (Suc subindex) sls ?t =
           Inr (map (\<lambda>(j, sl). sl\<lparr>sl_index := index @ utf8 j\<rparr>) (enumerate (Suc subindex) sls),
                ?t @ map (\<lambda>(j, sl). (index @ utf8 j, sl_url sl)) (enumerate (Suc subindex) sls))"
    using len fresh by (rule Cons.IH)
  show ?case by (simp add: Let_def set chr IH)
qed

lemma letters_utf8: "list_all (\<lambda>i. utf8 (97 + i) = [letter i]) [0..<26]"
  by code_simp

lemma utf8_letter: "i < 26 \<Longrightarrow> utf8 (97 + i) = [letter i]"
  using letters_utf8 by (simp add: list_all_iff del: upt_Suc)

lemma enumerate_shift: "enumerate n xs = map (\<lambda>(i, x). (n + i, x)) (enumerate 0 xs)"
proof (induction xs arbitrary: n)
  case Nil
  then show ?case by simp
next
  case (Cons x xs)
  have a: "enumerate (Suc n) xs = map (\<lambda>(i, x). (Suc n + i, x)) (enumerate 0 xs)"
    by (rule Cons.IH)
  have b: "enumerate (Suc 0) xs = map (\<lambda>(i, x). (Suc 0 + i, x)) (enumerate 0 xs)"
    by (rule Cons.IH)
  show ?case by (simp add: a b case_prod_unfold comp_def)
qed


text \<open>
  The loop succeeds as long as \<open>chr\<close> does, and numbers the sitelinks in their
  order from \<open>subindex\<close> on.
\<close>

lemma index_sitelinks_succeeds:
  assumes "subindex + length sls < 0x110000"
  shows "\<exists>t. index_sitelinks index subindex sls tbl =
           Inr (map (\<lambda>(j, sl). sl\<lparr>sl_index := index @ utf8 j\<rparr>) (enumerate subindex sls), t)"
  using assms
proof (induction sls arbitrary: subindex tbl)
  case Nil
  then show ?case by simp
next
  case (Cons sl sls)
  have chr: "py_chr (Suc subindex) = Inr (utf8 (Suc subindex))"
    using Cons.prems by (simp add: py_chr_def)
  have "Suc subindex + length sls < 0x110000" using Cons.prems by simp
  from Cons.IH [OF this, of "dict_set (index @ utf8 subindex) (sl_url sl) tbl"]
  obtain t where "index_sitelinks index (Suc subindex) sls (dict_set (index @ utf8 subindex) (sl_url sl) tbl)
      = Inr (map (\<lambda>(j, sl). sl\<lparr>sl_index := index @ utf8 j\<rparr>) (enumerate (Suc subindex) sls), t)"
    by blast
  then show ?case by (simp add: Let_def chr)
qed

text \<open>
  Claim C10: constructing a \<open>Result\<close> with \<open>sitelinks\<close> left at its default \<open>None\<close>
  raises \<open>TypeError\<close>, because the loop that builds the table iterates the argument
  and not the normalised field.  With an explicit list the constructor succeeds (as
  long as \<open>chr\<close> can name the sub-index, that is below 1114015 sitelinks) and the
  sitelinks come out in their order, the \<open>i\<close>-th with the parent index followed by
  the character of code \<open>97 + i\<close>: for up to 26 sitelinks these are \<open>a\<close>, \<open>b\<close>,
  \<open>c\<close>, \<dots>, and the table holds the primary entry followed by one entry per
  sitelink.  With the empty list the table holds the primary entry only.
\<close>

theorem Result_init_sitelinks:
  "Result_init index title url abstract metadata None = Inl TypeError \<and>
   Result_init index title url abstract metadata (Some []) =
     Inr \<lparr>r_index = str_pyval index, r_title = title, r_url = url, r_abstract = abstract,
          r_metadata = metadata, r_sitelinks = [], r_urltable = [(str_pyval index, url)]\<rparr> \<and>
   (length sls < 1114015 \<longrightarrow>
      (\<exists>r. Result_init index title url abstract metadata (Some sls) = Inr r \<and>
           r_sitelinks r =
             map (\<lambda>(i, sl). sl\<lparr>sl_index := str_pyval index @ utf8 (97 + i)\<rparr>) (enumerate 0 sls))) \<and>
   (length sls \<le> 26 \<longrightarrow>
      Result_init index title url abstract metadata (Some sls) =
        Inr \<lparr>r_index = str_pyval index, r_title = title, r_url = url, r_abstract = abstract,
             r_metadata = metadata,
             r_sitelinks =
               map (\<lambda>(i, sl). sl\<lparr>sl_index := str_pyval index @ [letter i]\<rparr>) (enumerate 0 sls),
             r_urltable =
               (str_pyval index, url)
               # map (\<lambda>(i, sl). (str_pyval index @ [letter i], sl_url sl)) (enumerate 0 sls)\<rparr>)"
proof -
  let ?ix = "str_pyval index"
  have none: "Result_init index title url abstract metadata None = Inl TypeError"
    by (simp add: Result_init_def)
  have empty: "Result_init index title url abstract metadata (Some []) =
     Inr \<lparr>r_index = ?ix, r_title = title, r_url = url, r_abstract = abstract,
          r_metadata = metadata, r_sitelinks = [], r_urltable = [(?ix, url)]\<rparr>"
    by (simp add: Result_init_def Let_def)
  have list: "Result_init index title url abstract metadata (Some sls) =
        Inr \<lparr>r_index = ?ix, r_title = title, r_url = url, r_abstract = abstract,
             r_metadata = metadata,
             r_sitelinks = map (\<lambda>(i, sl). sl\<lparr>sl_index := ?ix @ [letter i]\<rparr>) (enumerate 0 sls),
             r_urltable = (?ix, url) # map (\<lambda>(i, sl). (?ix @ [letter i], sl_url sl)) (enumerate 0 sls)\<rparr>"
    if len: "length sls \<le> 26"
  proof -
    have bound: "97 + length sls \<le> 128" using len by simp
    have fresh: "\<forall>j. 97 \<le> j \<and> j < 97 + length sls \<longrightarrow> ?ix @ utf8 j \<notin> fst ` set [(?ix, url)]"
      using len by (auto simp: utf8_ascii)
    have loop: "index_sitelinks ?ix 97 sls [(?ix, url)] =
           Inr (map (\<lambda>(j, sl). sl\<lparr>sl_index := ?ix @ utf8 j\<rparr>) (enumerate 97 sls),
                [(?ix, url)] @ map (\<lambda>(j, sl). (?ix @ utf8 j, sl_url sl)) (enumerate 97 sls))"
      using bound fresh by (rule index_sitelinks_ascii)
    have small: "i < 26" if "(i, sl) \<in> set (enumerate 0 sls)" for i sl
      using that len by (auto simp: in_set_enumerate_eq)
    have a: "map (\<lambda>(j, sl). sl\<lparr>sl_index := ?ix @ utf8 j\<rparr>) (enumerate 97 sls)
           = map (\<lambda>(i, sl). sl\<lparr>sl_index := ?ix @ [letter i]\<rparr>) (enumerate 0 sls)"
      unfolding enumerate_shift [of 97 sls]
      using small by (auto simp: utf8_letter)
    have b: "map (\<lambda>(j, sl). (?ix @ utf8 j, sl_url sl)) (enumerate 97 sls)
           = map (\<lambda>(i, sl). (?ix @ [letter i], sl_url sl)) (enumerate 0 sls)"
      unfolding enumerate_shift [of 97 sls]
      using small by (auto simp: utf8_letter)
    show ?thesis
      by (simp add: Result_init_def Let_def loop a b)
  qed
  have any: "\<exists>r. Result_init index title url abstract metadata (Some sls) = Inr r \<and>
           r_sitelinks r = map (\<lambda>(i, sl). sl\<lparr>sl_index := ?ix @ utf8 (97 + i)\<rparr>) (enumerate 0 sls)"
    if len: "length sls < 1114015"
  proof -
    have "97 + length sls < 0x110000" using len by simp
    from index_sitelinks_succeeds [OF this, of ?ix "[(?ix, url)]"] obtain t where
      loop: "index_sitelinks ?ix 97 sls [(?ix, url)] =
         Inr (map (\<lambda>(j, sl). sl\<lparr>sl_index := ?ix @ utf8 j\<rparr>) (enumerate 97 sls), t)"
      by blast
    have "map (\<lambda>(j, sl). sl\<lparr>sl_index := ?ix @ utf8 j\<rparr>) (enumerate 97 sls)
        = map (\<lambda>(i, sl). sl\<lparr>sl_index := ?ix @ utf8 (97 + i)\<rparr>) (enumerate 0 sls)"
      unfolding enumerate_shift [of 97 sls] by (simp add: case_prod_unfold comp_def)
    then show ?thesis by (simp add: Result_init_def Let_def loop)
  qed
  from none empty any list show ?thesis by blast
qed

theorem Result_init_sitelinks_witness:
  "length two_sitelinks \<le> 26 \<and>
   Result_init (PyInt 1) ''Example'' ''http://example.com/x'' ''An example site.'' None None
     = Inl TypeError \<and>
   Result_init (PyInt 1) ''Example'' ''http://example.com/x'' ''An example site.'' None (Some two_sitelinks) =
     Inr \<lparr>r_index = ''1'', r_title = ''Example'', r_url = ''http://example.com/x'',
          r_abstract = ''An example site.'', r_metadata = None,
          r_sitelinks =
            [\<lparr>sl_title = ''Docs'', sl_url = ''http://example.com/docs'',
               sl_abstract = ''Documentation'', sl_index = ''1a''\<rparr>,
             \<lparr>sl_title = ''Blog'', sl_url = ''http://example.com/blog'',
               sl_abstract = ''News'', sl_index = ''1b''\<rparr>],
          r_urltable = [(''1'', ''http://example.com/x''), (''1a'', ''http://example.com/docs''),
                        (''1b'', ''http://example.com/blog'')]\<rparr>"
proof -
  have len: "length two_sitelinks \<le> 26" by (simp add: two_sitelinks_def)
  have ix: "str_pyval (PyInt 1) = ''1''" by code_simp
  have e: "enumerate 0 two_sitelinks =
     [(0, Sitelink ''Docs'' ''http://example.com/docs'' ''Documentation''),
      (1, Sitelink ''Blog'' ''http://example.com/blog'' ''News'')]"
    by (simp add: two_sitelinks_def)
  have l: "letter 0 = CHR ''a''" "letter (Suc 0) = CHR ''b''" by (simp_all add: letter_def)
  from Result_init_sitelinks [of "PyInt 1" "''Example''" "''http://example.com/x''"
      "''An example site.''" None two_sitelinks] len
  show ?thesis by (simp add: ix e l Sitelink_def)
qed

section \<open>Properties of the parser\<close>

subsection \<open>Closing tags without an opening tag\<close>

text \<open>
  A closing tag whose annotation list is there but empty carries no annotation, and
  no end handler does anything without one.
\<close>

lemma scope_end_None: "scope_end p None = Inr p"
  by (cases "p_scope p")
     (simp_all add: scope_end_def root_end_def result_end_def title_end_def abstract_end_def
        sitelink_table_end_def sitelink_end_def sitelink_title_end_def ignore_end_def)

lemma handle_endtag_empty_list:
  "p_tag_annotations p tag = Some [] \<Longrightarrow> handle_endtag p tag = Inr p"
  by (simp add: handle_endtag_def pop_annotation_def scope_end_None)

text \<open>A closing tag whose name was never opened has no list to pop from.\<close>

lemma handle_endtag_never_opened:
  "p_tag_annotations p tag = None \<Longrightarrow> handle_endtag p tag = Inl KeyError"
  by (simp add: handle_endtag_def pop_annotation_def)

text \<open>
  Claim C1 at a concrete input: the markup \<open></p>\<close>, a closing tag for a name that
  has no opening tag.  \<open>feed\<close> does not complete: the lookup
  \<open>self.tag_annotations['p']\<close> raises \<open>KeyError\<close>, which the handler's
  \<open>except IndexError\<close> does not catch, whatever the flags \<open>ua\<close> and \<open>news\<close>.
\<close>

theorem feed_stray_close_tag_raises:
  "feed ua (GoogleParser_init news) [EndTag ''p''] = Inl KeyError \<and>
   parse_results ua news [EndTag ''p''] = Inl KeyError"
  by (simp add: parse_results_def handle_endtag_def pop_annotation_def GoogleParser_init_def)

subsection \<open>The minimal document\<close>

lemma minimal_document_ua: "parse_results True False minimal_document = Inr [example_result]"
  by code_simp

lemma minimal_document_noua: "parse_results False False minimal_document = Inr [example_result]"
  by code_simp

lemma minimal_document_ua_news: "parse_results True True minimal_document = Inr [example_result]"
  by code_simp

lemma minimal_document_noua_news: "parse_results False True minimal_document = Inr [example_result]"
  by code_simp

text \<open>
  Claim C5: the minimal document parses to exactly one result with the URL
  \<open>http://example.com/x\<close> (unwrapped from \<open>/url?q=\<dots>&sa=U\<close> and percent-decoded),
  the title \<open>Example\<close>, the abstract \<open>An example site.\<close> and no sitelinks, in either
  mode of the parser and with the user agent on or off.
\<close>

theorem minimal_document_parses:
  "parse_results ua news minimal_document = Inr [example_result] \<and>
   r_url example_result = ''http://example.com/x'' \<and>
   r_title example_result = ''Example'' \<and>
   r_abstract example_result = ''An example site.'' \<and>
   r_sitelinks example_result = []"
proof -
  have "parse_results ua news minimal_document = Inr [example_result]"
    using minimal_document_ua minimal_document_noua minimal_document_ua_news
      minimal_document_noua_news
    by (cases ua; cases news) simp_all
  then show ?thesis by (simp add: example_result_def)
qed

subsection \<open>Ignored subtrees\<close>

text \<open>
  The tags inside an ignored container are skipped.  In the scope \<open>ignore\<close>, with
  no text capture going on, a well-nested run of events only pushes and pops
  \<open>None\<close>.
\<close>

lemma same_stacks_refl: "same_stacks ta ta"
  by (simp add: same_stacks_def)

lemma same_stacks_trans: "same_stacks a b \<Longrightarrow> same_stacks b c \<Longrightarrow> same_stacks a c"
  by (simp add: same_stacks_def)

lemma same_stacks_push_pop:
  assumes "same_stacks (ta(tag \<mapsto> a # stack_of ta tag)) ta'"
  shows "ta' tag = Some (a # stack_of ta tag)"
    and "same_stacks ta (ta'(tag \<mapsto> stack_of ta tag))"
proof -
  from assms have st: "stack_of ta' tag = a # stack_of ta tag" and ne: "ta' tag \<noteq> None"
    by (simp_all add: same_stacks_def stack_of_def)
  then show "ta' tag = Some (a # stack_of ta tag)"
    by (auto simp: stack_of_def split: option.splits)
  have other: "stack_of ta' t = stack_of ta t" if "t \<noteq> tag" for t
    using assms that by (simp add: same_stacks_def stack_of_def)
  have dom: "ta' t \<noteq> None" if "ta t \<noteq> None" "t \<noteq> tag" for t
    using assms that by (simp add: same_stacks_def)
  show "same_stacks ta (ta'(tag \<mapsto> stack_of ta tag))"
    unfolding same_stacks_def
  proof (intro conjI allI impI)
    fix t show "stack_of (ta'(tag \<mapsto> stack_of ta tag)) t = stack_of ta t"
      using other [of t] by (cases "t = tag") (simp_all add: stack_of_def)
  next
    fix t assume "ta t \<noteq> None"
    then show "(ta'(tag \<mapsto> stack_of ta tag)) t \<noteq> None"
      using dom [of t] by (cases "t = tag") simp_all
  qed
qed

lemma same_but_refl: "same_but_annotations p p"
  unfolding same_but_annotations_def
  by (rule exI [of _ "p_tag_annotations p"]) (simp add: same_stacks_refl)

lemma same_but_trans:
  assumes "same_but_annotations p q" and "same_but_annotations q r"
  shows "same_but_annotations p r"
proof -
  from assms(1) obtain ta where q: "q = p\<lparr>p_tag_annotations := ta\<rparr>"
    and s1: "same_stacks (p_tag_annotations p) ta"
    by (auto simp: same_but_annotations_def)
  from assms(2) obtain tb where r: "r = q\<lparr>p_tag_annotations := tb\<rparr>"
    and s2: "same_stacks (p_tag_annotations q) tb"
    by (auto simp: same_but_annotations_def)
  have "r = p\<lparr>p_tag_annotations := tb\<rparr>" using q r by simp
  moreover have "same_stacks (p_tag_annotations p) tb"
    using s1 s2 q by (auto intro: same_stacks_trans)
  ultimately show ?thesis unfolding same_but_annotations_def by blast
qed

lemma feed_append:
  "feed ua p (xs @ ys) = (case feed ua p xs of Inl e \<Rightarrow> Inl e | Inr q \<Rightarrow> feed ua q ys)"
  by (induction xs arbitrary: p) (auto split: sum.splits)

lemma ignore_balanced:
  assumes "balanced es" and "p_scope p = S_ignore" and "p_handle_data p = Drop_data"
  shows "\<exists>q. feed ua p es = Inr q \<and> same_but_annotations p q"
  using assms
proof (induction es arbitrary: p rule: balanced.induct)
  case b_empty
  then show ?case by (simp add: same_but_refl)
next
  case (b_data es d)
  have "handle_data p d = p" using b_data.prems by (simp add: handle_data_def)
  then show ?case using b_data.IH [OF b_data.prems] by simp
next
  case (b_element inner rest tag attrs)
  let ?ta = "p_tag_annotations p"
  let ?p1 = "insert_annotation p tag None"
  have p1: "?p1 = p\<lparr>p_tag_annotations := ?ta(tag \<mapsto> None # stack_of ?ta tag)\<rparr>"
    by (simp add: insert_annotation_def stack_of_def)
  have s1: "p_scope ?p1 = S_ignore" "p_handle_data ?p1 = Drop_data"
    using b_element.prems by (simp_all add: insert_annotation_def)
  from b_element.IH(1) [OF s1] obtain p2 where
    f2: "feed ua ?p1 inner = Inr p2" and r2: "same_but_annotations ?p1 p2" by blast
  from r2 obtain ta2 where p2: "p2 = p\<lparr>p_tag_annotations := ta2\<rparr>"
    and st2: "same_stacks (?ta(tag \<mapsto> None # stack_of ?ta tag)) ta2"
    unfolding same_but_annotations_def p1 by auto
  note pp = same_stacks_push_pop [OF st2]
  let ?p3 = "p\<lparr>p_tag_annotations := ta2(tag \<mapsto> stack_of ?ta tag)\<rparr>"
  have e3: "handle_event ua p2 (EndTag tag) = Inr ?p3"
    using pp(1) b_element.prems
    by (simp add: p2 handle_endtag_def pop_annotation_def scope_end_def ignore_end_def)
  have s3: "p_scope ?p3 = S_ignore" "p_handle_data ?p3 = Drop_data"
    using b_element.prems by simp_all
  have r3: "same_but_annotations p ?p3"
    unfolding same_but_annotations_def using pp(2) by blast
  from b_element.IH(2) [OF s3] obtain q where
    f4: "feed ua ?p3 rest = Inr q" and r4: "same_but_annotations ?p3 q" by blast
  have "feed ua p (StartTag tag attrs # inner @ EndTag tag # rest) = Inr q"
    using b_element.prems(1) f2 e3 f4 by (simp add: handle_starttag_def feed_append)
  moreover have "same_but_annotations p q" using r3 r4 by (rule same_but_trans)
  ultimately show ?case by blast
qed

lemma ignored_container:
  assumes "p_scope p \<noteq> S_ignore" and "p_handle_data p = Drop_data"
    and "ignored_by IGNORE_LIST tag attrs = Inr True" and "balanced inner"
  shows "\<exists>q. feed ua p (StartTag tag attrs # inner @ [EndTag tag]) = Inr q \<and> same_but_annotations p q"
proof -
  let ?ta = "p_tag_annotations p"
  let ?a = "Some (A_ignored (p_scope p))"
  let ?p0 = "p\<lparr>p_scope := S_ignore\<rparr>"
  let ?p1 = "?p0\<lparr>p_tag_annotations := ?ta(tag \<mapsto> ?a # stack_of ?ta tag)\<rparr>"
  have e1: "handle_event ua p (StartTag tag attrs) = Inr ?p1"
    using assms(1,3)
    by (simp add: handle_starttag_def insert_annotation_def set_handlers_to_def stack_of_def)
  have s1: "p_scope ?p1 = S_ignore" "p_handle_data ?p1 = Drop_data"
    using assms(2) by simp_all
  from ignore_balanced [OF assms(4) s1] obtain p2 where
    f2: "feed ua ?p1 inner = Inr p2" and r2: "same_but_annotations ?p1 p2" by blast
  from r2 obtain ta2 where p2: "p2 = ?p1\<lparr>p_tag_annotations := ta2\<rparr>"
    and st2: "same_stacks (p_tag_annotations ?p1) ta2"
    unfolding same_but_annotations_def by blast
  from st2 have st2': "same_stacks (?ta(tag \<mapsto> ?a # stack_of ?ta tag)) ta2" by simp
  note pp = same_stacks_push_pop [OF st2']
  let ?q = "p\<lparr>p_tag_annotations := ta2(tag \<mapsto> stack_of ?ta tag)\<rparr>"
  have e3: "handle_event ua p2 (EndTag tag) = Inr ?q"
    using pp(1)
    by (simp add: p2 handle_endtag_def pop_annotation_def scope_end_def ignore_end_def
        set_handlers_to_def)
  have "feed ua p (StartTag tag attrs # inner @ [EndTag tag]) = Inr ?q"
    using e1 f2 e3 by (simp add: feed_append)
  moreover have "same_but_annotations p ?q"
    unfolding same_but_annotations_def using pp(2) by blast
  ultimately show ?thesis by blast
qed

lemma same_stacks_push:
  "same_stacks ta ta' \<Longrightarrow>
   same_stacks (ta(tag \<mapsto> a # (case ta tag of None \<Rightarrow> [] | Some st \<Rightarrow> st)))
               (ta'(tag \<mapsto> a # (case ta' tag of None \<Rightarrow> [] | Some st \<Rightarrow> st)))"
  unfolding same_stacks_def stack_of_def by (auto split: option.splits)

lemma same_stacks_update:
  "same_stacks ta ta' \<Longrightarrow> same_stacks (ta(tag \<mapsto> st)) (ta'(tag \<mapsto> st))"
  unfolding same_stacks_def stack_of_def by (auto split: option.splits)

lemma start_populating_annotations:
  "start_populating_textbuf (p\<lparr>p_tag_annotations := ta\<rparr>) f
     = (start_populating_textbuf p f)\<lparr>p_tag_annotations := ta\<rparr>"
  by (simp add: start_populating_textbuf_def split: option.splits)

lemma root_start_annotations:
  "root_start (p\<lparr>p_tag_annotations := ta\<rparr>) tag attrs
     = (case root_start p tag attrs of Inl e \<Rightarrow> Inl e
        | Inr (a, q) \<Rightarrow> Inr (a, q\<lparr>p_tag_annotations := ta\<rparr>))"
  by (auto simp: root_start_def set_handlers_to_def start_populating_annotations
      split: sum.splits)

lemma result_start_news_annotations:
  "result_start_news ua (p\<lparr>p_tag_annotations := ta\<rparr>) tag attrs
     = (case result_start_news ua p tag attrs of Inl e \<Rightarrow> Inl e
        | Inr (a, q) \<Rightarrow> Inr (a, q\<lparr>p_tag_annotations := ta\<rparr>))"
  by (auto simp: result_start_news_def start_populating_annotations split: sum.splits)

lemma result_start_annotations:
  "result_start ua (p\<lparr>p_tag_annotations := ta\<rparr>) tag attrs
     = (case result_start ua p tag attrs of Inl e \<Rightarrow> Inl e
        | Inr (a, q) \<Rightarrow> Inr (a, q\<lparr>p_tag_annotations := ta\<rparr>))"
  by (auto simp: result_start_def result_start_news_annotations sitelink_table_test_def
      set_handlers_to_def start_populating_annotations split: sum.splits)

lemma title_start_annotations:
  "title_start ua (p\<lparr>p_tag_annotations := ta\<rparr>) tag attrs
     = (case title_start ua p tag attrs of Inl e \<Rightarrow> Inl e
        | Inr (a, q) \<Rightarrow> Inr (a, q\<lparr>p_tag_annotations := ta\<rparr>))"
  by (auto simp: title_start_def start_populating_textbuf_def split: option.splits)

lemma abstract_start_annotations:
  "abstract_start (p\<lparr>p_tag_annotations := ta\<rparr>) tag attrs
     = (case abstract_start p tag attrs of Inl e \<Rightarrow> Inl e
        | Inr (a, q) \<Rightarrow> Inr (a, q\<lparr>p_tag_annotations := ta\<rparr>))"
  by (auto simp: abstract_start_def start_populating_annotations split: sum.splits)

lemma sitelink_table_start_annotations:
  "sitelink_table_start (p\<lparr>p_tag_annotations := ta\<rparr>) tag attrs
     = (case sitelink_table_start p tag attrs of Inl e \<Rightarrow> Inl e
        | Inr (a, q) \<Rightarrow> Inr (a, q\<lparr>p_tag_annotations := ta\<rparr>))"
  by (auto simp: sitelink_table_start_def set_handlers_to_def)

lemma sitelink_start_annotations:
  "sitelink_start (p\<lparr>p_tag_annotations := ta\<rparr>) tag attrs
     = (case sitelink_start p tag attrs of Inl e \<Rightarrow> Inl e
        | Inr (a, q) \<Rightarrow> Inr (a, q\<lparr>p_tag_annotations := ta\<rparr>))"
  by (auto simp: sitelink_start_def set_handlers_to_def start_populating_annotations
      split: sum.splits)

lemma sitelink_title_start_annotations:
  "sitelink_title_start (p\<lparr>p_tag_annotations := ta\<rparr>) tag attrs
     = (case sitelink_title_start p tag attrs of Inl e \<Rightarrow> Inl e
        | Inr (a, q) \<Rightarrow> Inr (a, q\<lparr>p_tag_annotations := ta\<rparr>))"
  by (auto simp: sitelink_title_start_def start_populating_textbuf_def split: option.splits)

lemma scope_start_annotations:
  "scope_start ua (p\<lparr>p_tag_annotations := ta\<rparr>) tag attrs
     = (case scope_start ua p tag attrs of Inl e \<Rightarrow> Inl e
        | Inr (a, q) \<Rightarrow> Inr (a, q\<lparr>p_tag_annotations := ta\<rparr>))"
  by (cases "p_scope p")
     (simp_all add: scope_start_def root_start_annotations result_start_annotations
        title_start_annotations abstract_start_annotations sitelink_table_start_annotations
        sitelink_start_annotations sitelink_title_start_annotations)

lemma result_end_annotations:
  "result_end (p\<lparr>p_tag_annotations := ta\<rparr>) a
     = (case result_end p a of Inl e \<Rightarrow> Inl e | Inr q \<Rightarrow> Inr (q\<lparr>p_tag_annotations := ta\<rparr>))"
  by (auto simp: result_end_def Let_def set_handlers_to_def pop_textbuf_def
      stop_populating_textbuf_def split: sum.splits)

lemma scope_end_annotations:
  "scope_end (p\<lparr>p_tag_annotations := ta\<rparr>) a
     = (case scope_end p a of Inl e \<Rightarrow> Inl e | Inr q \<Rightarrow> Inr (q\<lparr>p_tag_annotations := ta\<rparr>))"
  by (cases "p_scope p")
     (auto simp: scope_end_def result_end_annotations root_end_def title_end_def
        abstract_end_def sitelink_table_end_def sitelink_end_def sitelink_title_end_def
        ignore_end_def set_handlers_to_def pop_textbuf_def stop_populating_textbuf_def
        split: option.splits annotation.splits)

lemma scope_start_keeps_annotations:
  assumes "scope_start ua p tag attrs = Inr (a, q)"
  shows "p_tag_annotations q = p_tag_annotations p"
proof -
  have "q = q\<lparr>p_tag_annotations := p_tag_annotations p\<rparr>"
    using scope_start_annotations [where p = p and ta = "p_tag_annotations p" and ua = ua
        and tag = tag and attrs = attrs] assms
    by simp
  then have "p_tag_annotations q = p_tag_annotations (q\<lparr>p_tag_annotations := p_tag_annotations p\<rparr>)"
    by simp
  then show ?thesis by simp
qed

lemma scope_end_keeps_annotations:
  assumes "scope_end p a = Inr q"
  shows "p_tag_annotations q = p_tag_annotations p"
proof -
  have "q = q\<lparr>p_tag_annotations := p_tag_annotations p\<rparr>"
    using scope_end_annotations [where p = p and ta = "p_tag_annotations p" and a = a] assms
    by simp
  then have "p_tag_annotations q = p_tag_annotations (q\<lparr>p_tag_annotations := p_tag_annotations p\<rparr>)"
    by simp
  then show ?thesis by simp
qed

lemma handle_event_simulation:
  assumes "same_stacks (p_tag_annotations p) ta" and "handle_event ua p e = Inr q"
  shows "\<exists>tb. handle_event ua (p\<lparr>p_tag_annotations := ta\<rparr>) e = Inr (q\<lparr>p_tag_annotations := tb\<rparr>)
           \<and> same_stacks (p_tag_annotations q) tb"
proof (cases e)
  case (Data d)
  have "handle_event ua (p\<lparr>p_tag_annotations := ta\<rparr>) e = Inr (q\<lparr>p_tag_annotations := ta\<rparr>)"
    using assms(2) Data by (auto simp: handle_data_def split: data_handler.splits)
  moreover have "p_tag_annotations q = p_tag_annotations p"
    using assms(2) Data by (auto simp: handle_data_def split: data_handler.splits)
  ultimately show ?thesis using assms(1) by auto
next
  case (StartTag tag attrs)
  let ?push = "\<lambda>m a. m(tag \<mapsto> a # (case m tag of None \<Rightarrow> [] | Some st \<Rightarrow> st))"
  show ?thesis
  proof (cases "p_scope p = S_ignore")
    case True
    have "q = p\<lparr>p_tag_annotations := ?push (p_tag_annotations p) None\<rparr>"
      using assms(2) StartTag True by (simp add: handle_starttag_def insert_annotation_def)
    moreover have "handle_event ua (p\<lparr>p_tag_annotations := ta\<rparr>) e
        = Inr (p\<lparr>p_tag_annotations := ?push ta None\<rparr>)"
      using StartTag True by (simp add: handle_starttag_def insert_annotation_def)
    moreover have "same_stacks (?push (p_tag_annotations p) None) (?push ta None)"
      using assms(1) by (rule same_stacks_push)
    ultimately show ?thesis by auto
  next
    case False
    show ?thesis
    proof (cases "ignored_by IGNORE_LIST tag attrs = Inr True")
      case True
      let ?a = "Some (A_ignored (p_scope p))"
      have "q = p\<lparr>p_tag_annotations := ?push (p_tag_annotations p) ?a, p_scope := S_ignore\<rparr>"
        using assms(2) StartTag True False
        by (simp add: handle_starttag_def insert_annotation_def set_handlers_to_def)
      moreover have "handle_event ua (p\<lparr>p_tag_annotations := ta\<rparr>) e
          = Inr (p\<lparr>p_tag_annotations := ?push ta ?a, p_scope := S_ignore\<rparr>)"
        using StartTag True False
        by (simp add: handle_starttag_def insert_annotation_def set_handlers_to_def)
      ultimately have "handle_event ua (p\<lparr>p_tag_annotations := ta\<rparr>) e
          = Inr (q\<lparr>p_tag_annotations := ?push ta ?a\<rparr>)"
        and "p_tag_annotations q = ?push (p_tag_annotations p) ?a"
        by simp_all
      moreover have "same_stacks (?push (p_tag_annotations p) ?a) (?push ta ?a)"
        using assms(1) by (rule same_stacks_push)
      ultimately show ?thesis by (intro exI [of _ "?push ta ?a"]) simp
    next
      case ni: False
      from assms(2) StartTag False ni obtain a p1 where
        ss: "scope_start ua p tag attrs = Inr (a, p1)" and q: "q = insert_annotation p1 tag a"
        by (auto simp: handle_starttag_def split: sum.splits if_splits)
      have ta1: "p_tag_annotations p1 = p_tag_annotations p"
        using ss by (rule scope_start_keeps_annotations)
      have q': "q = p1\<lparr>p_tag_annotations := ?push (p_tag_annotations p) a\<rparr>"
        using q ta1 by (simp add: insert_annotation_def)
      have "handle_event ua (p\<lparr>p_tag_annotations := ta\<rparr>) e
          = Inr (p1\<lparr>p_tag_annotations := ?push ta a\<rparr>)"
        using StartTag False ni assms(2) ss
        by (auto simp: handle_starttag_def scope_start_annotations insert_annotation_def
            split: sum.splits if_splits)
      moreover have "same_stacks (?push (p_tag_annotations p) a) (?push ta a)"
        using assms(1) by (rule same_stacks_push)
      ultimately show ?thesis using q' by auto
    qed
  qed
next
  case (EndTag tag)
  from assms(2) EndTag obtain a p1 where pop: "pop_annotation p tag = Inr (a, p1)"
    and se: "scope_end p1 a = Inr q"
    by (auto simp: handle_endtag_def split: sum.splits)
  from pop obtain st where some: "p_tag_annotations p tag = Some st"
    by (auto simp: pop_annotation_def split: option.splits)
  have sta: "stack_of ta tag = st" and ne: "ta tag \<noteq> None"
    using assms(1) some by (auto simp: same_stacks_def stack_of_def)
  then have some': "ta tag = Some st" by (auto simp: stack_of_def split: option.splits)
  have taq: "p_tag_annotations q = p_tag_annotations p1"
    using se by (rule scope_end_keeps_annotations)
  show ?thesis
  proof (cases st)
    case Nil
    have p1: "p1 = p" "a = None" using pop some Nil by (simp_all add: pop_annotation_def)
    have "handle_event ua (p\<lparr>p_tag_annotations := ta\<rparr>) e = Inr (q\<lparr>p_tag_annotations := ta\<rparr>)"
      using EndTag some' Nil se p1
      by (simp add: handle_endtag_def pop_annotation_def scope_end_annotations)
    then show ?thesis using assms(1) taq p1 by auto
  next
    case (Cons a' st')
    have p1: "p1 = p\<lparr>p_tag_annotations := (p_tag_annotations p)(tag \<mapsto> st')\<rparr>" "a = a'"
      using pop some Cons by (simp_all add: pop_annotation_def)
    have "handle_event ua (p\<lparr>p_tag_annotations := ta\<rparr>) e
        = Inr (q\<lparr>p_tag_annotations := ta(tag \<mapsto> st')\<rparr>)"
      using EndTag some' Cons se p1
        scope_end_annotations [where p = p and ta = "(p_tag_annotations p)(tag \<mapsto> st')" and a = a']
        scope_end_annotations [where p = p and ta = "ta(tag \<mapsto> st')" and a = a']
      by (auto simp: handle_endtag_def pop_annotation_def split: sum.splits)
    moreover have "same_stacks (p_tag_annotations q) (ta(tag \<mapsto> st'))"
      using assms(1) taq p1 by (simp add: same_stacks_update)
    ultimately show ?thesis by auto
  qed
qed

lemma feed_simulation:
  assumes "same_but_annotations p p'" and "feed ua p es = Inr q"
  shows "\<exists>q'. feed ua p' es = Inr q' \<and> same_but_annotations q q'"
  using assms
proof (induction es arbitrary: p p')
  case Nil
  then show ?case by simp
next
  case (Cons e es)
  from Cons.prems(2) obtain p1 where h: "handle_event ua p e = Inr p1" and f: "feed ua p1 es = Inr q"
    by (auto split: sum.splits)
  from Cons.prems(1) obtain ta where p': "p' = p\<lparr>p_tag_annotations := ta\<rparr>"
    and st: "same_stacks (p_tag_annotations p) ta"
    unfolding same_but_annotations_def by blast
  from handle_event_simulation [OF st h] obtain tb where
    h': "handle_event ua p' e = Inr (p1\<lparr>p_tag_annotations := tb\<rparr>)"
    and st1: "same_stacks (p_tag_annotations p1) tb"
    unfolding p' by blast
  have "same_but_annotations p1 (p1\<lparr>p_tag_annotations := tb\<rparr>)"
    unfolding same_but_annotations_def using st1 by blast
  from Cons.IH [OF this f] obtain q' where "feed ua (p1\<lparr>p_tag_annotations := tb\<rparr>) es = Inr q'"
    and "same_but_annotations q q'" by blast
  then show ?case using h' by auto
qed

lemma same_but_results: "same_but_annotations p q \<Longrightarrow> p_results q = p_results p"
  by (auto simp: same_but_annotations_def)

text \<open>
  An ignore-listed container met while no text is being captured, with well-nested
  content, changes nothing but the bookkeeping of the annotation lists: the results
  are those of the document without the container.
\<close>

lemma ignored_container_skipped:
  assumes "feed ua p0 before = Inr p"
    and "p_scope p \<noteq> S_ignore" and "p_handle_data p = Drop_data"
    and "ignored_by IGNORE_LIST tag attrs = Inr True" and "balanced inner"
    and "feed ua p0 (before @ after) = Inr q"
  shows "\<exists>q'. feed ua p0 (before @ StartTag tag attrs # inner @ EndTag tag # after) = Inr q'
           \<and> p_results q' = p_results q"
proof -
  from ignored_container [OF assms(2-5)] obtain p1 where
    c: "feed ua p (StartTag tag attrs # inner @ [EndTag tag]) = Inr p1"
    and r: "same_but_annotations p p1" by blast
  have a: "feed ua p after = Inr q" using assms(1,6) by (simp add: feed_append)
  from feed_simulation [OF r a] obtain q' where f: "feed ua p1 after = Inr q'"
    and r': "same_but_annotations q q'" by blast
  have "before @ StartTag tag attrs # inner @ EndTag tag # after
      = before @ (StartTag tag attrs # inner @ [EndTag tag]) @ after" by simp
  then have "feed ua p0 (before @ StartTag tag attrs # inner @ EndTag tag # after) = Inr q'"
    using assms(1) c f by (simp only: feed_append sum.case)
  with r' show ?thesis by (auto dest: same_but_results)
qed

lemma ignored_subtree_balanced: "balanced [StartTag ''b'' [], Data ''People also ask'', EndTag ''b'']"
proof -
  have "balanced (StartTag ''b'' [] # [Data ''People also ask''] @ EndTag ''b'' # [])"
    by (intro balanced.intros)
  then show ?thesis by simp
qed

text \<open>
  Claim C4 at a concrete input: the minimal document with the ignore-listed
  container \<open><div class="g-blk"><b>People also ask</b></div>\<close> placed inside the
  abstract's \<open><span class="st">\<close>, after its text.  The tags of the subtree are
  skipped, but \<open>handle_data\<close> is still \<open>record_data\<close>, so the text of the subtree
  lands in the abstract; with the subtree removed the abstract is
  \<open>An example site.\<close>
\<close>

theorem ignored_subtree_text_is_captured:
  "document_with_ignored = take 9 minimal_document @ ignored_subtree @ drop 9 minimal_document \<and>
   parse_results True False document_with_ignored
     = Inr [example_result\<lparr>r_abstract := ''An example site.People also ask''\<rparr>] \<and>
   parse_results True False (take 9 minimal_document @ drop 9 minimal_document)
     = Inr [example_result] \<and>
   example_result\<lparr>r_abstract := ''An example site.People also ask''\<rparr> \<noteq> example_result"
proof -
  have 1: "parse_results True False document_with_ignored
     = Inr [example_result\<lparr>r_abstract := ''An example site.People also ask''\<rparr>]"
    by code_simp
  have 2: "parse_results True False (take 9 minimal_document @ drop 9 minimal_document)
     = Inr [example_result]"
    using minimal_document_ua by simp
  have 3: "r_abstract (example_result\<lparr>r_abstract := ''An example site.People also ask''\<rparr>)
     \<noteq> r_abstract example_result"
    by (simp add: example_result_def)
  then have "example_result\<lparr>r_abstract := ''An example site.People also ask''\<rparr> \<noteq> example_result"
    by metis
  with 1 2 show ?thesis by (simp add: document_with_ignored_def)
qed

subsection \<open>Every emitted result has a URL\<close>


lemma results_start_populating [simp]:
  "p_results (start_populating_textbuf p f) = p_results p"
  by (simp add: start_populating_textbuf_def split: option.splits)

lemma results_set_handlers_to [simp]: "p_results (set_handlers_to p s) = p_results p"
  by (simp add: set_handlers_to_def)

lemma results_insert_annotation [simp]: "p_results (insert_annotation p tag a) = p_results p"
  by (simp add: insert_annotation_def)

lemma results_stop_pop [simp]:
  "p_results (snd (pop_textbuf (stop_populating_textbuf p))) = p_results p"
  by (simp add: pop_textbuf_def stop_populating_textbuf_def)

lemma results_handle_data [simp]: "p_results (handle_data p d) = p_results p"
  by (simp add: handle_data_def split: data_handler.splits)





















end
